theory Spec2Isabelle
  imports Complex_Main "HOL-Library.Word" "HOL-Library.Sublist" "HOL-Library.AList"
begin

unbundle bit_operations_syntax

section \<open>Strings, bytes and hexadecimal text\<close>

text \<open>
  A JavaScript string is modelled as a \<^typ>\<open>string\<close>, one \<^typ>\<open>char\<close> per code unit; the
  model covers the strings whose code units are below 256. A \<open>Buffer\<close> is a list of bytes.
\<close>

type_synonym byte = "8 word"

text \<open>The digit alphabet of \<open>Number.prototype.toString(16)\<close> and of \<open>buf.toString('hex')\<close>.\<close>

definition hexDigit :: "nat \<Rightarrow> char" where
  "hexDigit d = ''0123456789abcdef'' ! (d mod 16)"

text \<open>
  \<open>n.toString(16)\<close> for a non-negative integer \<open>n\<close>: no leading zero, and \<open>"0"\<close> for zero.
  \<open>Date.now()\<close> is a count of milliseconds since the epoch, a natural number.
\<close>

function toString16 :: "nat \<Rightarrow> string" where
  "toString16 n = (if n < 16 then [hexDigit n] else toString16 (n div 16) @ [hexDigit (n mod 16)])"
  by pat_completeness auto
termination
  by (relation "measure id") auto

declare toString16.simps [simp del]

text \<open>\<open>buf.toString('hex')\<close>: two digits per byte, the high nibble first.\<close>

definition byteHex :: "byte \<Rightarrow> string" where
  "byteHex b = [hexDigit (unat b div 16), hexDigit (unat b mod 16)]"

definition toHex :: "byte list \<Rightarrow> string" where
  "toHex bs = concat (map byteHex bs)"

text \<open>
  \<open>hmac.digest('hex')\<close> for SHA-256: the 256-bit digest as 64 digits, the most significant
  nibble first.
\<close>

definition digestHex :: "256 word \<Rightarrow> string" where
  "digestHex w = map (\<lambda>i. hexDigit (unat (drop_bit (4 * (63 - i)) w) mod 16)) [0..<64]"

text \<open>\<open>parts.join(sep)\<close>.\<close>

fun join :: "string \<Rightarrow> string list \<Rightarrow> string" where
  "join sep [] = []"
| "join sep [p] = p"
| "join sep (p # q # ps) = p @ sep @ join sep (q # ps)"

section \<open>JavaScript values and objects\<close>

text \<open>
  The values a parsed request body, a validated value or a provider reply can hold. An object is
  an association list in insertion order: \<open>field\<close> reads a property (\<open>undefined\<close> when it is
  absent), \<open>AList.update\<close> assigns one, \<open>AList.delete\<close> is \<open>delete\<close>, and \<open>map fst\<close> is
  \<open>Object.keys\<close>.
\<close>

datatype jsval =
    JUndefined
  | JNull
  | JBool bool
  | JNum rat
  | JStr string
  | JArr "jsval list"
  | JObj "(string \<times> jsval) list"

type_synonym obj = "(string \<times> jsval) list"

definition field :: "obj \<Rightarrow> string \<Rightarrow> jsval" where
  "field ob k = (case map_of ob k of None \<Rightarrow> JUndefined | Some v \<Rightarrow> v)"

text \<open>\<open>ToBoolean\<close>, the test behind \<open>if (x)\<close> and \<open>!x\<close>.\<close>

fun truthy :: "jsval \<Rightarrow> bool" where
  "truthy JUndefined = False"
| "truthy JNull = False"
| "truthy (JBool b) = b"
| "truthy (JNum n) = (n \<noteq> 0)"
| "truthy (JStr s) = (s \<noteq> [])"
| "truthy (JArr xs) = True"
| "truthy (JObj ob) = True"

text \<open>
  \<open>data.key\<close> on a value that came back from the provider: reading a property of \<open>undefined\<close>
  or \<open>null\<close> throws a \<open>TypeError\<close> (\<open>None\<close>); a primitive or an array has no such property.
\<close>

fun getProp :: "jsval \<Rightarrow> string \<Rightarrow> jsval option" where
  "getProp JUndefined k = None"
| "getProp JNull k = None"
| "getProp (JObj ob) k = Some (field ob k)"
| "getProp v k = Some JUndefined"

text \<open>
  \<open>data.key = v\<close> under \<open>'use strict'\<close>: a \<open>TypeError\<close> (\<open>None\<close>) on \<open>undefined\<close>, \<open>null\<close>
  and on a primitive. An array takes the property too; it is kept as it was, its named
  properties not being part of the model.
\<close>

fun setProp :: "jsval \<Rightarrow> string \<Rightarrow> jsval \<Rightarrow> jsval option" where
  "setProp (JObj ob) k v = Some (JObj (AList.update k v ob))"
| "setProp (JArr xs) k v = Some (JArr xs)"
| "setProp w k v = None"

text \<open>\<open>str.toLowerCase()\<close> on the letters \<open>A-Z\<close>.\<close>

definition lowerChar :: "char \<Rightarrow> char" where
  "lowerChar c = (let n = (of_char c :: nat) in if 65 \<le> n \<and> n \<le> 90 then char_of (n + 32) else c)"

definition toLowerCase :: "string \<Rightarrow> string" where
  "toLowerCase str = map lowerChar str"

section \<open>Request validation (Joi)\<close>

text \<open>
  The schemas of the module use \<open>Joi.string()\<close> with \<open>length(n)\<close> and \<open>regex(p)\<close>,
  \<open>Joi.number()\<close>, and \<open>Joi.boolean()\<close> with \<open>truthy(..)\<close> and \<open>falsy(..)\<close>, each with or
  without \<open>required()\<close> and \<open>default(v)\<close>. A schema is data; the chain of calls that builds it
  in the source is a chain of the functions below.
\<close>

datatype joi_type =
    JoiString "nat option" "(string \<Rightarrow> bool) option"
  | JoiNumber
  | JoiBoolean "jsval list" "jsval list"

record joi_schema =
  joi_type :: joi_type
  joi_required :: bool
  joi_default :: "jsval option"

definition Joi_string :: joi_schema where
  "Joi_string = \<lparr>joi_type = JoiString None None, joi_required = False, joi_default = None\<rparr>"

definition Joi_number :: joi_schema where
  "Joi_number = \<lparr>joi_type = JoiNumber, joi_required = False, joi_default = None\<rparr>"

definition Joi_boolean :: joi_schema where
  "Joi_boolean = \<lparr>joi_type = JoiBoolean [] [], joi_required = False, joi_default = None\<rparr>"

definition length_rule :: "nat \<Rightarrow> joi_schema \<Rightarrow> joi_schema" where
  "length_rule n sc =
     sc\<lparr>joi_type := (case joi_type sc of JoiString l p \<Rightarrow> JoiString (Some n) p | t \<Rightarrow> t)\<rparr>"

definition regex_rule :: "(string \<Rightarrow> bool) \<Rightarrow> joi_schema \<Rightarrow> joi_schema" where
  "regex_rule p sc =
     sc\<lparr>joi_type := (case joi_type sc of JoiString l q \<Rightarrow> JoiString l (Some p) | t \<Rightarrow> t)\<rparr>"

definition required :: "joi_schema \<Rightarrow> joi_schema" where
  "required sc = sc\<lparr>joi_required := True\<rparr>"

definition truthy_rule :: "jsval list \<Rightarrow> joi_schema \<Rightarrow> joi_schema" where
  "truthy_rule vs sc =
     sc\<lparr>joi_type := (case joi_type sc of JoiBoolean t f \<Rightarrow> JoiBoolean (t @ vs) f | t \<Rightarrow> t)\<rparr>"

definition falsy_rule :: "jsval list \<Rightarrow> joi_schema \<Rightarrow> joi_schema" where
  "falsy_rule vs sc =
     sc\<lparr>joi_type := (case joi_type sc of JoiBoolean t f \<Rightarrow> JoiBoolean t (f @ vs) | t \<Rightarrow> t)\<rparr>"

definition default_rule :: "jsval \<Rightarrow> joi_schema \<Rightarrow> joi_schema" where
  "default_rule v sc = sc\<lparr>joi_default := Some v\<rparr>"

text \<open>
  The regular expression \<open>/^[0-9]+$/\<close>: without the \<open>m\<close> flag \<open>^\<close> and \<open>$\<close> match at the two
  ends of the input only, so the whole string is one or more of the ten ASCII digits.
\<close>

definition isDigit :: "char \<Rightarrow> bool" where
  "isDigit c = (c \<in> set ''0123456789'')"

definition numbers :: "string \<Rightarrow> bool" where
  "numbers str = (str \<noteq> [] \<and> list_all isDigit str)"

datatype joi_error =
    Any_required
  | Any_empty
  | String_base
  | String_length nat
  | String_regex
  | Number_base
  | Boolean_base
  | Object_allowUnknown

type_synonym joi_detail = "string \<times> joi_error"

text \<open>
  Membership in a \<open>truthy\<close>/\<open>falsy\<close> list: strings compare without regard to case (the
  default of \<open>Joi.boolean()\<close>), other values strictly.
\<close>

fun sameValue :: "jsval \<Rightarrow> jsval \<Rightarrow> bool" where
  "sameValue (JStr a) (JStr b) = (toLowerCase a = toLowerCase b)"
| "sameValue v w = (v = w)"

definition hasValue :: "jsval list \<Rightarrow> jsval \<Rightarrow> bool" where
  "hasValue vs v = list_ex (sameValue v) vs"

text \<open>
  One value against one type with \<open>convert: true\<close> and \<open>abortEarly: false\<close>: the errors and
  the converted value. The empty string is not a valid \<open>Joi.string()\<close>. A string is
  converted to a number when the runtime reads it as one (\<open>numeric\<close>, see the environment),
  and to a boolean when it is \<open>true\<close> or \<open>false\<close> or in one of the two lists.
\<close>

fun validate_type :: "(string \<Rightarrow> rat option) \<Rightarrow> joi_type \<Rightarrow> jsval \<Rightarrow> joi_error list \<times> jsval" where
  "validate_type num (JoiString len pat) (JStr s) =
     ((if s = [] then [Any_empty] else []) @
      (case len of None \<Rightarrow> [] | Some n \<Rightarrow> if length s = n then [] else [String_length n]) @
      (case pat of None \<Rightarrow> [] | Some p \<Rightarrow> if p s then [] else [String_regex]),
      JStr s)"
| "validate_type num (JoiString len pat) v = ([String_base], v)"
| "validate_type num JoiNumber (JNum n) = ([], JNum n)"
| "validate_type num JoiNumber (JStr s) =
     (case num s of None \<Rightarrow> ([Number_base], JStr s) | Some n \<Rightarrow> ([], JNum n))"
| "validate_type num JoiNumber v = ([Number_base], v)"
| "validate_type num (JoiBoolean t f) (JBool b) = ([], JBool b)"
| "validate_type num (JoiBoolean t f) v =
     (if (case v of JStr s \<Rightarrow> toLowerCase s = ''true'' | _ \<Rightarrow> False) then ([], JBool True)
      else if (case v of JStr s \<Rightarrow> toLowerCase s = ''false'' | _ \<Rightarrow> False) then ([], JBool False)
      else if hasValue t v then ([], JBool True)
      else if hasValue f v then ([], JBool False)
      else ([Boolean_base], v))"

text \<open>
  The keys of the schema in their order, against a copy of the input: a missing key is an
  error when it is required and takes its default otherwise; a present key is validated and
  replaced by its converted value.
\<close>

fun validate_keys ::
  "(string \<Rightarrow> rat option) \<Rightarrow> (string \<times> joi_schema) list \<Rightarrow> obj \<Rightarrow> joi_detail list \<times> obj" where
  "validate_keys num [] target = ([], target)"
| "validate_keys num ((key, sc) # rest) target =
     (let item = field target key;
          (errs, target') =
            (if item = JUndefined then
               (if joi_required sc then ([(key, Any_required)], target)
                else (case joi_default sc of None \<Rightarrow> ([], target)
                      | Some d \<Rightarrow> ([], AList.update key d target)))
             else (case validate_type num (joi_type sc) item of
                     (es, v) \<Rightarrow> (map (Pair key) es, if es = [] then AList.update key v target else target)));
          (errs', target'') = validate_keys num rest target'
      in (errs @ errs', target''))"

text \<open>
  \<open>Joi.validate(value, Joi.object().keys(schema), {abortEarly: false, convert: true,
  allowUnknown: false})\<close>: \<open>Inl\<close> is \<open>result.error\<close>, \<open>Inr\<close> is \<open>result.value\<close> when there is no
  error.
\<close>

definition Joi_validate ::
  "(string \<Rightarrow> rat option) \<Rightarrow> obj \<Rightarrow> (string \<times> joi_schema) list \<Rightarrow> joi_detail list + obj" where
  "Joi_validate num val schema =
     (let (errs, target) = validate_keys num schema val;
          unknown = map (\<lambda>k. (k, Object_allowUnknown))
                      (filter (\<lambda>k. k \<notin> set (map fst schema)) (map fst val))
      in if errs @ unknown = [] then Inr target else Inl (errs @ unknown))"

section \<open>The environment of a request\<close>

text \<open>
  The remote account service behind \<open>apiClient['2fa']\<close>: the calls the module makes, with the
  arguments it passes, and the \<open>(err, data)\<close> pair the callback receives.
\<close>

datatype api_call =
    VerifyTotp string jsval string
  | Disable2fa string string
  | CheckTotp string jsval string
  | StartU2f string string
  | CheckU2f string obj
  | SetupU2f string string
  | DisableU2f string string
  | EnableU2f string obj

text \<open>An \<open>Error\<close> object: its \<open>message\<close>, \<open>code\<close> and \<open>status\<close>.\<close>

datatype js_error = JsError (message: string) (code: jsval) (status: jsval)

datatype api_reply = ApiError js_error | ApiResult jsval

text \<open>
  What the module reads from outside itself: the configuration (\<open>config.u2f.enabled\<close>,
  \<open>config.totp.secret\<close>), the clock (\<open>Date.now()\<close>), the random source behind
  \<open>crypto.randomBytes\<close> (a stream of bytes, of which a call takes the first \<open>n\<close>), the keyed
  hash \<open>crypto.createHmac('sha256', key).update(msg).digest()\<close> (a function of the key and the
  message text with a 256-bit result), the reply of the account service to a call, and the
  runtime's reading of a string as a number (used by \<open>Joi.number()\<close>).
\<close>

record env =
  u2f_enabled :: bool
  totp_secret :: string
  now :: nat
  entropy :: "nat \<Rightarrow> byte"
  hmac_sha256 :: "string \<Rightarrow> string \<Rightarrow> 256 word"
  api :: "api_call \<Rightarrow> api_reply"
  numeric :: "string \<Rightarrow> rat option"

definition randomBytes :: "env \<Rightarrow> nat \<Rightarrow> byte list" where
  "randomBytes e n = map (entropy e) [0..<n]"

section \<open>Minting the remember-device token\<close>

text \<open>
  \<^verbatim>\<open>
  function generate2faRemeberToken(user) {
      let parts = [Date.now().toString(16), crypto.randomBytes(6).toString('hex')];
      let valueStr = parts.join('::');
      let hash = crypto.createHmac('sha256', config.totp.secret + ':' + user)
          .update(valueStr).digest('hex');
      return valueStr + '::' + hash;
  }\<close>
\<close>

definition generate2faRemeberToken :: "env \<Rightarrow> string \<Rightarrow> string" where
  "generate2faRemeberToken e user =
     (let parts = [toString16 (now e), toHex (randomBytes e 6)];
          valueStr = join ''::'' parts;
          hash = digestHex (hmac_sha256 e (totp_secret e @ '':'' @ user) valueStr)
      in valueStr @ ''::'' @ hash)"

text \<open>
  Reading the token back. \<open>str.split(sep)\<close> for a non-empty separator \<open>s # ss\<close> scans from the
  left and cuts at every occurrence that does not overlap the one before it.
\<close>

function splitFrom :: "char \<Rightarrow> string \<Rightarrow> string \<Rightarrow> string \<Rightarrow> string list" where
  "splitFrom s ss cur [] = [cur]"
| "splitFrom s ss cur (c # cs) =
     (if prefix (s # ss) (c # cs) then cur # splitFrom s ss [] (drop (length ss) cs)
      else splitFrom s ss (cur @ [c]) cs)"
  by pat_completeness auto
termination
  by (relation "measure (\<lambda>(s, ss, cur, str). length str)") auto

definition splitString :: "string \<Rightarrow> string \<Rightarrow> string list" where
  "splitString sep str = (case sep of [] \<Rightarrow> map (\<lambda>c. [c]) str | s # ss \<Rightarrow> splitFrom s ss [] str)"

text \<open>The digits \<open>0-9a-f\<close>.\<close>

definition lowerHex :: "string \<Rightarrow> bool" where
  "lowerHex str = list_all (\<lambda>c. c \<in> set ''0123456789abcdef'') str"

text \<open>Decoding, the inverse of the two encoders.\<close>

definition hexValue :: "char \<Rightarrow> nat option" where
  "hexValue c = map_of
     [(CHR ''0'', 0), (CHR ''1'', 1), (CHR ''2'', 2), (CHR ''3'', 3), (CHR ''4'', 4), (CHR ''5'', 5),
      (CHR ''6'', 6), (CHR ''7'', 7), (CHR ''8'', 8), (CHR ''9'', 9), (CHR ''a'', 10), (CHR ''b'', 11),
      (CHR ''c'', 12), (CHR ''d'', 13), (CHR ''e'', 14), (CHR ''f'', 15)] c"

fun parseHexFrom :: "nat \<Rightarrow> string \<Rightarrow> nat option" where
  "parseHexFrom acc [] = Some acc"
| "parseHexFrom acc (c # cs) =
     (case hexValue c of None \<Rightarrow> None | Some d \<Rightarrow> parseHexFrom (16 * acc + d) cs)"

definition parseHex :: "string \<Rightarrow> nat option" where
  "parseHex str = (if str = [] then None else parseHexFrom 0 str)"

fun fromHex :: "string \<Rightarrow> byte list option" where
  "fromHex [] = Some []"
| "fromHex [c] = None"
| "fromHex (c # d # cs) =
     (case (hexValue c, hexValue d, fromHex cs) of
        (Some h, Some l, Some bs) \<Rightarrow> Some (of_nat (16 * h + l) # bs)
      | _ \<Rightarrow> None)"

section \<open>Requests, sessions and responses\<close>

text \<open>
  A request as a handler sees it: \<open>req.user.id\<close> (\<open>None\<close> when \<open>req.user\<close> is undefined, so
  that reading \<open>req.user.id\<close> throws), \<open>req.ip\<close>, the parsed \<open>req.body\<close> and \<open>req.session\<close>.
  The middleware in front of a handler (\<open>passport.parse\<close>, \<open>passport.csrf\<close>,
  \<open>passport.checkLogin\<close>) belongs to another module and is not modelled.
\<close>

record session =
  require2fa :: bool
  username :: jsval

record request =
  req_user :: "string option"
  req_ip :: string
  req_body :: obj
  req_session :: session

datatype response =
    Json jsval
  | JsonValidation "joi_detail list"
  | Redirect string
  | Render string
  | Next js_error
  | Threw

text \<open>
  What a handler does besides answering: the calls to the account service, the calls to
  \<open>generate2faRemeberToken\<close> and the flash messages, in order.
\<close>

datatype event = Api api_call | Mint string | Flash string string

record outcome =
  events :: "event list"
  response :: response
  session_after :: session

definition disabled :: js_error where
  "disabled = JsError ''U2F support is disabled'' JUndefined JUndefined"

definition disabled404 :: js_error where
  "disabled404 = JsError ''U2F support is disabled'' JUndefined (JNum 404)"

definition jsonError :: "string \<Rightarrow> jsval" where
  "jsonError msg = JObj [(''error'', JStr msg)]"

text \<open>
  \<open>Object.keys(source).forEach(key => { if (allowed.includes(key)) requestData[key] =
  req.body[key]; })\<close>
\<close>

definition copyKeys :: "string list \<Rightarrow> string list \<Rightarrow> obj \<Rightarrow> obj \<Rightarrow> obj" where
  "copyKeys keys allowed bdy requestData =
     fold (\<lambda>key rd. if key \<in> set allowed then AList.update key (field bdy key) rd else rd)
       keys requestData"

section \<open>The second-factor routes\<close>

definition truthy_values :: "jsval list" where
  "truthy_values = [JStr ''Y'', JStr ''true'', JStr ''yes'', JStr ''on'', JNum 1]"

definition falsy_values :: "jsval list" where
  "falsy_values = [JStr ''N'', JStr ''false'', JStr ''no'', JStr ''off'', JNum 0, JStr []]"

definition verify_totp_schema :: "(string \<times> joi_schema) list" where
  "verify_totp_schema =
     [(''token'', required (regex_rule numbers (length_rule 6 Joi_string)))]"

definition check_totp_schema :: "(string \<times> joi_schema) list" where
  "check_totp_schema =
     [(''token'', required (regex_rule numbers (length_rule 6 Joi_string))),
      (''remember2fa'',
         default_rule (JBool False) (falsy_rule falsy_values (truthy_rule truthy_values Joi_boolean)))]"

definition check_u2f_schema :: "(string \<times> joi_schema) list" where
  "check_u2f_schema =
     [(''keyHandle'', Joi_string),
      (''clientData'', Joi_string),
      (''signatureData'', Joi_string),
      (''errorCode'', Joi_number),
      (''errorMessage'', Joi_string),
      (''remember2fa'',
         default_rule (JBool False) (falsy_rule falsy_values (truthy_rule truthy_values Joi_boolean)))]"

text \<open>\<open>router.post('/verify-totp', ...)\<close>\<close>

definition verify_totp :: "env \<Rightarrow> request \<Rightarrow> outcome" where
  "verify_totp e req =
     (let bdy = AList.delete ''_csrf'' (req_body req) in
      case Joi_validate (numeric e) bdy verify_totp_schema of
        Inl errs \<Rightarrow> \<lparr>events = [], response = JsonValidation errs, session_after = req_session req\<rparr>
      | Inr val \<Rightarrow>
          (case req_user req of
             None \<Rightarrow> \<lparr>events = [], response = Threw, session_after = req_session req\<rparr>
           | Some uid \<Rightarrow>
               (let call = VerifyTotp uid (field val ''token'') (req_ip req) in
                case api e call of
                  ApiError err \<Rightarrow>
                    \<lparr>events = [Api call],
                     response = Json (JObj [(''error'', JStr (message err)), (''code'', code err)]),
                     session_after = req_session req\<rparr>
                | ApiResult data \<Rightarrow>
                    \<lparr>events = [Api call, Flash ''success'' ''Two factor authentication is now enabled''],
                     response = Json (JObj [(''success'', JBool True),
                                            (''targetUrl'', JStr ''/account/security'')]),
                     session_after = req_session req\<rparr>)))"

text \<open>\<open>router.post('/disable-2fa', ...)\<close>\<close>

definition disable_2fa :: "env \<Rightarrow> request \<Rightarrow> outcome" where
  "disable_2fa e req =
     (case req_user req of
        None \<Rightarrow> \<lparr>events = [], response = Threw, session_after = req_session req\<rparr>
      | Some uid \<Rightarrow>
          (let call = Disable2fa uid (req_ip req) in
           case api e call of
             ApiError err \<Rightarrow>
               \<lparr>events = [Api call], response = Next err, session_after = req_session req\<rparr>
           | ApiResult data \<Rightarrow>
               \<lparr>events = [Api call, Flash ''success'' ''Two factor authentication is now disabled''],
                response = Redirect ''/account/security'',
                session_after = (req_session req)\<lparr>require2fa := False\<rparr>\<rparr>))"

text \<open>\<open>router.post('/check-totp', ...)\<close>\<close>

definition check_totp :: "env \<Rightarrow> request \<Rightarrow> outcome" where
  "check_totp e req =
     (let bdy = AList.delete ''_csrf'' (req_body req) in
      case Joi_validate (numeric e) bdy check_totp_schema of
        Inl errs \<Rightarrow> \<lparr>events = [], response = JsonValidation errs, session_after = req_session req\<rparr>
      | Inr val \<Rightarrow>
          (let remember2fa = field val ''remember2fa'' in
           case req_user req of
             None \<Rightarrow> \<lparr>events = [], response = Threw, session_after = req_session req\<rparr>
           | Some uid \<Rightarrow>
               (let call = CheckTotp uid (field val ''token'') (req_ip req) in
                case api e call of
                  ApiError err \<Rightarrow>
                    \<lparr>events = [Api call],
                     response = Json (JObj [(''error'', JStr (message err)), (''code'', code err)]),
                     session_after = req_session req\<rparr>
                | ApiResult result \<Rightarrow>
                    if \<not> truthy result then
                      \<lparr>events = [Api call], response = Json (jsonError ''Could not verify token''),
                       session_after = req_session req\<rparr>
                    else
                      (let data = [(''success'', JBool True), (''targetUrl'', JStr ''/account/'')] in
                       if truthy remember2fa then
                         \<lparr>events = [Api call, Mint uid],
                          response = Json (JObj (AList.update ''remember2fa''
                            (JObj [(''username'', username (req_session req)),
                                   (''value'', JStr (generate2faRemeberToken e uid))]) data)),
                          session_after = (req_session req)\<lparr>require2fa := False\<rparr>\<rparr>
                       else
                         \<lparr>events = [Api call], response = Json (JObj data),
                          session_after = (req_session req)\<lparr>require2fa := False\<rparr>\<rparr>))))"

text \<open>\<open>router.post('/start-u2f', ...)\<close>\<close>

definition start_u2f :: "env \<Rightarrow> request \<Rightarrow> outcome" where
  "start_u2f e req =
     (if \<not> u2f_enabled e then
        \<lparr>events = [], response = Json (jsonError (message disabled)), session_after = req_session req\<rparr>
      else
        (case req_user req of
           None \<Rightarrow> \<lparr>events = [], response = Threw, session_after = req_session req\<rparr>
         | Some uid \<Rightarrow>
             (let call = StartU2f uid (req_ip req) in
              case api e call of
                ApiError err \<Rightarrow>
                  \<lparr>events = [Api call], response = Json (jsonError (message err)),
                   session_after = req_session req\<rparr>
              | ApiResult data \<Rightarrow>
                  \<lparr>events = [Api call], response = Json data, session_after = req_session req\<rparr>)))"

text \<open>\<open>router.post('/check-u2f', ...)\<close>\<close>

definition check_u2f :: "env \<Rightarrow> request \<Rightarrow> outcome" where
  "check_u2f e req =
     (if \<not> u2f_enabled e then
        \<lparr>events = [], response = Json (jsonError (message disabled)), session_after = req_session req\<rparr>
      else
        (let bdy = AList.delete ''_csrf'' (req_body req) in
         case Joi_validate (numeric e) bdy check_u2f_schema of
           Inl errs \<Rightarrow> \<lparr>events = [], response = JsonValidation errs, session_after = req_session req\<rparr>
         | Inr val \<Rightarrow>
             (let requestData =
                    copyKeys (map fst val) [''signatureData'', ''clientData'', ''errorCode''] bdy
                      [(''ip'', JStr (req_ip req))];
                  remember2fa = field val ''remember2fa''
              in
              case req_user req of
                None \<Rightarrow> \<lparr>events = [], response = Threw, session_after = req_session req\<rparr>
              | Some uid \<Rightarrow>
                  (let call = CheckU2f uid requestData in
                   case api e call of
                     ApiError err \<Rightarrow>
                       \<lparr>events = [Api call], response = Json (jsonError (message err)),
                        session_after = req_session req\<rparr>
                   | ApiResult data \<Rightarrow>
                       if \<not> truthy data \<or> \<not> truthy (case getProp data ''success'' of
                                                          None \<Rightarrow> JUndefined | Some v \<Rightarrow> v) then
                         \<lparr>events = [Api call], response = Json (jsonError ''Could not verify key''),
                          session_after = req_session req\<rparr>
                       else if truthy remember2fa then
                         (case setProp data ''remember2fa''
                                 (JObj [(''username'', username (req_session req)),
                                        (''value'', JStr (generate2faRemeberToken e uid))]) of
                            None \<Rightarrow>
                              \<lparr>events = [Api call, Mint uid], response = Threw,
                               session_after = req_session req\<rparr>
                          | Some data' \<Rightarrow>
                              (case setProp data' ''targetUrl'' (JStr ''/account/'') of
                                 None \<Rightarrow>
                                   \<lparr>events = [Api call, Mint uid], response = Threw,
                                    session_after = (req_session req)\<lparr>require2fa := False\<rparr>\<rparr>
                               | Some data'' \<Rightarrow>
                                   \<lparr>events = [Api call, Mint uid], response = Json data'',
                                    session_after = (req_session req)\<lparr>require2fa := False\<rparr>\<rparr>))
                       else
                         (case setProp data ''targetUrl'' (JStr ''/account/'') of
                            None \<Rightarrow>
                              \<lparr>events = [Api call], response = Threw,
                               session_after = (req_session req)\<lparr>require2fa := False\<rparr>\<rparr>
                          | Some data' \<Rightarrow>
                              \<lparr>events = [Api call], response = Json data',
                               session_after = (req_session req)\<lparr>require2fa := False\<rparr>\<rparr>)))))"

text \<open>\<open>router.post('/enable-u2f', ...)\<close>\<close>

definition enable_u2f :: "env \<Rightarrow> request \<Rightarrow> outcome" where
  "enable_u2f e req =
     (if \<not> u2f_enabled e then
        \<lparr>events = [], response = Next disabled404, session_after = req_session req\<rparr>
      else
        \<lparr>events = [], response = Render ''account/enable-u2f'', session_after = req_session req\<rparr>)"

text \<open>\<open>router.post('/setup-u2f', ...)\<close>\<close>

definition setup_u2f :: "env \<Rightarrow> request \<Rightarrow> outcome" where
  "setup_u2f e req =
     (if \<not> u2f_enabled e then
        \<lparr>events = [], response = Json (jsonError (message disabled)), session_after = req_session req\<rparr>
      else
        (case req_user req of
           None \<Rightarrow> \<lparr>events = [], response = Threw, session_after = req_session req\<rparr>
         | Some uid \<Rightarrow>
             (let call = SetupU2f uid (req_ip req) in
              case api e call of
                ApiError err \<Rightarrow>
                  \<lparr>events = [Api call], response = Json (jsonError (message err)),
                   session_after = req_session req\<rparr>
              | ApiResult data \<Rightarrow>
                  \<lparr>events = [Api call, Flash ''success'' ''U2F key was added to your account''],
                   response = Json data, session_after = req_session req\<rparr>)))"

text \<open>\<open>router.post('/disable-u2f', ...)\<close>\<close>

definition disable_u2f :: "env \<Rightarrow> request \<Rightarrow> outcome" where
  "disable_u2f e req =
     (if \<not> u2f_enabled e then
        \<lparr>events = [], response = Next disabled404, session_after = req_session req\<rparr>
      else
        (case req_user req of
           None \<Rightarrow> \<lparr>events = [], response = Threw, session_after = req_session req\<rparr>
         | Some uid \<Rightarrow>
             (let call = DisableU2f uid (req_ip req) in
              case api e call of
                ApiError err \<Rightarrow>
                  \<lparr>events = [Api call], response = Next err, session_after = req_session req\<rparr>
              | ApiResult data \<Rightarrow>
                  (case getProp data ''success'' of
                     None \<Rightarrow> \<lparr>events = [Api call], response = Threw, session_after = req_session req\<rparr>
                   | Some ok \<Rightarrow>
                       if \<not> truthy ok then
                         \<lparr>events = [Api call],
                          response = Next (JsError ''Did not receive U2F data'' JUndefined JUndefined),
                          session_after = req_session req\<rparr>
                       else
                         \<lparr>events = [Api call, Flash ''success'' ''U2F was disabled''],
                          response = Redirect ''/account/security/'',
                          session_after = req_session req\<rparr>))))"

text \<open>\<open>router.post('/enable-u2f/verify', ...)\<close>\<close>

definition enable_u2f_verify :: "env \<Rightarrow> request \<Rightarrow> outcome" where
  "enable_u2f_verify e req =
     (if \<not> u2f_enabled e then
        \<lparr>events = [], response = Json (jsonError (message disabled)), session_after = req_session req\<rparr>
      else
        (let requestData =
               copyKeys (map fst (req_body req)) [''registrationData'', ''clientData'', ''errorCode'']
                 (req_body req) [(''ip'', JStr (req_ip req))]
         in
         case req_user req of
           None \<Rightarrow> \<lparr>events = [], response = Threw, session_after = req_session req\<rparr>
         | Some uid \<Rightarrow>
             (let call = EnableU2f uid requestData in
              case api e call of
                ApiError err \<Rightarrow>
                  \<lparr>events = [Api call], response = Json (jsonError (message err)),
                   session_after = req_session req\<rparr>
              | ApiResult data \<Rightarrow>
                  (case setProp data ''targetUrl'' (JStr ''/account/security'') of
                     None \<Rightarrow> \<lparr>events = [Api call], response = Threw, session_after = req_session req\<rparr>
                   | Some data' \<Rightarrow>
                       \<lparr>events = [Api call], response = Json data',
                        session_after = req_session req\<rparr>))))"

section \<open>The keyed hash of the runtime\<close>

text \<open>
  \<open>crypto.createHmac('sha256', key)\<close> is HMAC (RFC 2104) over SHA-256 (FIPS 180-4), with the
  key and the message given as strings and encoded as UTF-8. It is part of the runtime, not of
  this module; the model below follows the two standards, and the module's own functions take
  the keyed hash from the environment.
\<close>

type_synonym w32 = "32 word"

definition Ch :: "w32 \<Rightarrow> w32 \<Rightarrow> w32 \<Rightarrow> w32" where
  "Ch x y z = (x AND y) XOR (NOT x AND z)"

definition Maj :: "w32 \<Rightarrow> w32 \<Rightarrow> w32 \<Rightarrow> w32" where
  "Maj x y z = (x AND y) XOR (x AND z) XOR (y AND z)"

definition bsig0 :: "w32 \<Rightarrow> w32" where
  "bsig0 x = word_rotr 2 x XOR word_rotr 13 x XOR word_rotr 22 x"

definition bsig1 :: "w32 \<Rightarrow> w32" where
  "bsig1 x = word_rotr 6 x XOR word_rotr 11 x XOR word_rotr 25 x"

definition ssig0 :: "w32 \<Rightarrow> w32" where
  "ssig0 x = word_rotr 7 x XOR word_rotr 18 x XOR drop_bit 3 x"

definition ssig1 :: "w32 \<Rightarrow> w32" where
  "ssig1 x = word_rotr 17 x XOR word_rotr 19 x XOR drop_bit 10 x"

text \<open>
  The constants of the standard: the first 32 bits of the fractional parts of the cube roots
  (for the rounds) and of the square roots (for the initial hash value) of the first primes.
  \<open>root k x\<close> is the integer part of the \<open>k\<close>-th root of \<open>x\<close>, found by bisection.
\<close>

function bisect :: "nat \<Rightarrow> nat \<Rightarrow> nat \<Rightarrow> nat \<Rightarrow> nat" where
  "bisect k x lo hi =
     (if hi \<le> lo + 1 then lo
      else (let mid = (lo + hi) div 2
            in if mid ^ k \<le> x then bisect k x mid hi else bisect k x lo mid))"
  by pat_completeness auto
termination
  by (relation "measure (\<lambda>(k, x, lo, hi). hi - lo)") auto

declare bisect.simps [simp del]

definition root :: "nat \<Rightarrow> nat \<Rightarrow> nat" where
  "root k x = bisect k x 0 (x + 1)"

definition isPrime :: "nat \<Rightarrow> bool" where
  "isPrime n = (2 \<le> n \<and> list_all (\<lambda>d. n mod d \<noteq> 0) [2..<n])"

definition primes64 :: "nat list" where
  "primes64 = filter isPrime [2..<312]"

definition K256 :: "w32 list" where
  "K256 = map (\<lambda>p. of_nat (root 3 (p * 2 ^ 96))) primes64"

definition H256 :: "w32 list" where
  "H256 = map (\<lambda>p. of_nat (root 2 (p * 2 ^ 64))) (take 8 primes64)"

text \<open>Padding: a one bit, zero bits up to 56 modulo 64 bytes, and the bit length in 64 bits.\<close>

definition be64 :: "nat \<Rightarrow> byte list" where
  "be64 n = map (\<lambda>i. of_nat (n div 256 ^ (7 - i))) [0..<8]"

definition sha_pad :: "byte list \<Rightarrow> byte list" where
  "sha_pad m = m @ [0x80] @ replicate ((119 - length m mod 64) mod 64) 0 @ be64 (8 * length m)"

fun be32 :: "byte list \<Rightarrow> w32 list" where
  "be32 (a # b # c # d # rest) =
     (push_bit 24 (ucast a) OR push_bit 16 (ucast b) OR push_bit 8 (ucast c) OR ucast d) # be32 rest"
| "be32 rest = []"

text \<open>The message schedule: sixteen words of the block, extended to sixty-four.\<close>

fun schedule :: "nat \<Rightarrow> w32 list \<Rightarrow> w32 list" where
  "schedule 0 w = w"
| "schedule (Suc n) w =
     (let t = length w in
      schedule n (w @ [ssig1 (w ! (t - 2)) + w ! (t - 7) + ssig0 (w ! (t - 15)) + w ! (t - 16)]))"

fun sha_round :: "w32 \<times> w32 \<Rightarrow> w32 list \<Rightarrow> w32 list" where
  "sha_round (k, w) [a, b, c, d, e, f, g, h] =
     (let t1 = h + bsig1 e + Ch e f g + k + w; t2 = bsig0 a + Maj a b c
      in [t1 + t2, a, b, c, d + t1, e, f, g])"
| "sha_round (k, w) st = st"

definition compress :: "w32 list \<Rightarrow> w32 list \<Rightarrow> w32 list" where
  "compress st block = map2 (+) st (fold sha_round (zip K256 (schedule 48 block)) st)"

function sha_blocks :: "w32 list \<Rightarrow> w32 list \<Rightarrow> w32 list" where
  "sha_blocks st ws =
     (if length ws < 16 then st else sha_blocks (compress st (take 16 ws)) (drop 16 ws))"
  by pat_completeness auto
termination
  by (relation "measure (\<lambda>(st, ws). length ws)") auto

declare sha_blocks.simps [simp del]

definition sha256 :: "byte list \<Rightarrow> 256 word" where
  "sha256 m = fold (\<lambda>w acc. push_bit 32 acc OR ucast w) (sha_blocks H256 (be32 (sha_pad m))) 0"

definition digestBytes :: "256 word \<Rightarrow> byte list" where
  "digestBytes w = map (\<lambda>i. ucast (drop_bit (8 * (31 - i)) w)) [0..<32]"

text \<open>
  HMAC: a key longer than the block of 64 bytes is hashed first, and the key is then filled
  with zero bytes up to the block.
\<close>

definition hmac_key :: "byte list \<Rightarrow> byte list" where
  "hmac_key k =
     (let k0 = (if 64 < length k then digestBytes (sha256 k) else k)
      in k0 @ replicate (64 - length k0) 0)"

definition hmac :: "byte list \<Rightarrow> byte list \<Rightarrow> 256 word" where
  "hmac k m =
     sha256 (map (\<lambda>b. b XOR 0x5c) (hmac_key k) @
             digestBytes (sha256 (map (\<lambda>b. b XOR 0x36) (hmac_key k) @ m)))"

text \<open>UTF-8 of a string whose code units are below 256: one byte below 128, two above.\<close>

definition utf8_char :: "char \<Rightarrow> byte list" where
  "utf8_char c =
     (let n = (of_char c :: nat)
      in if n < 128 then [of_nat n] else [of_nat (192 + n div 64), of_nat (128 + n mod 64)])"

definition utf8 :: "string \<Rightarrow> byte list" where
  "utf8 str = concat (map utf8_char str)"

definition createHmac_sha256 :: "string \<Rightarrow> string \<Rightarrow> 256 word" where
  "createHmac_sha256 key msg = hmac (utf8 key) (utf8 msg)"

section \<open>Verifying a remember-device token\<close>


section \<open>The sessions of one account\<close>

text \<open>
  Each request carries the session of the client that sent it; a handler reads and writes that
  session only. The state of one account is its set of active factors, kept by the account
  service, and the sessions of its clients, by session id.
\<close>

datatype factor = TOTP | SecurityKey

record world =
  active :: "factor set"
  sessions :: "nat \<Rightarrow> session"

text \<open>
  Modelled from the spec: what a call that the account service answers without error does to
  the account's active factors. \<open>DisableAll\<close> removes every factor record, \<open>Disable(kind)\<close>
  those of one kind, and a confirmed enrollment makes its kind active.
\<close>

fun registry :: "api_call \<Rightarrow> factor set \<Rightarrow> factor set" where
  "registry (Disable2fa uid addr) fs = {}"
| "registry (DisableU2f uid addr) fs = fs - {SecurityKey}"
| "registry (VerifyTotp uid token addr) fs = insert TOTP fs"
| "registry (EnableU2f uid requestData) fs = insert SecurityKey fs"
| "registry call fs = fs"

fun effect :: "env \<Rightarrow> event \<Rightarrow> factor set \<Rightarrow> factor set" where
  "effect e (Api call) fs = (case api e call of ApiError err \<Rightarrow> fs | ApiResult data \<Rightarrow> registry call fs)"
| "effect e ev fs = fs"

text \<open>
  Serving one request of the client with session \<open>sid\<close>: the handler runs on that client's
  session, which is stored back afterwards.
\<close>

definition serve ::
  "(env \<Rightarrow> request \<Rightarrow> outcome) \<Rightarrow> env \<Rightarrow> nat \<Rightarrow> string option \<Rightarrow> string \<Rightarrow> obj \<Rightarrow> world
     \<Rightarrow> response \<times> world" where
  "serve handler e sid uid addr bdy w =
     (let out = handler e \<lparr>req_user = uid, req_ip = addr, req_body = bdy,
                           req_session = sessions w sid\<rparr>
      in (response out,
          \<lparr>active = fold (effect e) (events out) (active w),
           sessions = (sessions w)(sid := session_after out)\<rparr>))"

section \<open>Outcomes of a verification\<close>

text \<open>
  The provider's answer counts as a success for \<open>/check-totp\<close> when the callback gets no error
  and a truthy result (the tests \<open>if (err)\<close> and \<open>if (!result)\<close>), and for \<open>/check-u2f\<close> when
  it gets no error and an object with a truthy \<open>success\<close> (\<open>if (err)\<close> and
  \<open>if (!data || !data.success)\<close>).
\<close>

fun totp_verified :: "api_reply \<Rightarrow> bool" where
  "totp_verified (ApiError err) = False"
| "totp_verified (ApiResult result) = truthy result"

fun u2f_verified :: "api_reply \<Rightarrow> bool" where
  "u2f_verified (ApiError err) = False"
| "u2f_verified (ApiResult data) =
     (truthy data \<and> truthy (case getProp data ''success'' of None \<Rightarrow> JUndefined | Some v \<Rightarrow> v))"

text \<open>
  A failure outcome: a JSON answer that carries an \<open>error\<close> and no \<open>success\<close>, a validation
  error, an error handed to \<open>next\<close>, or an exception.
\<close>

fun isFailure :: "response \<Rightarrow> bool" where
  "isFailure (Json (JObj ob)) = (field ob ''error'' \<noteq> JUndefined \<and> \<not> truthy (field ob ''success''))"
| "isFailure (Json v) = False"
| "isFailure (JsonValidation errs) = True"
| "isFailure (Redirect url) = False"
| "isFailure (Render view) = False"
| "isFailure (Next err) = True"
| "isFailure Threw = True"

text \<open>The calls to the account service and to the mint operation among the events.\<close>

definition calls :: "outcome \<Rightarrow> api_call list" where
  "calls out = concat (map (\<lambda>ev. case ev of Api call \<Rightarrow> [call] | _ \<Rightarrow> []) (events out))"

definition minted :: "outcome \<Rightarrow> bool" where
  "minted out = list_ex (\<lambda>ev. case ev of Mint uid \<Rightarrow> True | _ \<Rightarrow> False) (events out)"

text \<open>
  The caller opted in: the body's \<open>remember2fa\<close> is \<open>true\<close> or one of the values the schema
  lists as truthy.
\<close>

definition opted_in :: "obj \<Rightarrow> bool" where
  "opted_in bdy =
     (field bdy ''remember2fa'' = JBool True \<or> hasValue truthy_values (field bdy ''remember2fa''))"

text \<open>
  The \<open>requestData\<close> that \<open>/check-u2f\<close> builds from the validated value and the body.
\<close>

definition u2f_request :: "request \<Rightarrow> obj \<Rightarrow> obj" where
  "u2f_request req val =
     copyKeys (map fst val) [''signatureData'', ''clientData'', ''errorCode'']
       (AList.delete ''_csrf'' (req_body req)) [(''ip'', JStr (req_ip req))]"

text \<open>Exactly six ASCII digits.\<close>

definition sixDigits :: "string \<Rightarrow> bool" where
  "sixDigits str = (length str = 6 \<and> list_all isDigit str)"

text \<open>An object without the entries of the given keys.\<close>

definition omit :: "string list \<Rightarrow> obj \<Rightarrow> obj" where
  "omit ks ob = filter (\<lambda>(k, v). k \<notin> set ks) ob"

section \<open>A sample deployment\<close>

text \<open>
  A configuration with security keys switched on, the runtime's keyed hash, the runtime's
  reading of numeric strings, and an account service that accepts every call, or refuses
  every call.
\<close>

definition accepting :: "api_call \<Rightarrow> api_reply" where
  "accepting call = ApiResult (JObj [(''success'', JBool True)])"

definition refusing :: "api_call \<Rightarrow> api_reply" where
  "refusing call = ApiError (JsError ''Failed to validate TOTP'' (JStr ''InvalidToken'') JUndefined)"

text \<open>
  The strings that \<open>Joi.number()\<close> converts: those that \<open>Number\<close> reads as a finite number and
  \<open>parseFloat\<close> as a number, with the value \<open>parseFloat\<close> gives. That is, between white space,
  a signed decimal numeral with an optional fraction and exponent, or an unsigned binary,
  octal or hexadecimal numeral, of which \<open>parseFloat\<close> reads the leading zero only. A number is
  finite when it rounds to a double, that is, below \<open>2^1024 - 2^970\<close> in absolute value; the
  rounding itself is not modelled.
\<close>

definition isSpace :: "char \<Rightarrow> bool" where
  "isSpace c = ((of_char c :: nat) \<in> set [9, 10, 11, 12, 13, 32, 160])"

definition trim :: "string \<Rightarrow> string" where
  "trim str = rev (dropWhile isSpace (rev (dropWhile isSpace str)))"

definition digitsValue :: "string \<Rightarrow> nat" where
  "digitsValue str = foldl (\<lambda>acc c. 10 * acc + (of_char c - 48)) 0 str"

definition radixDigit :: "nat \<Rightarrow> char \<Rightarrow> nat option" where
  "radixDigit r c =
     (let n = (of_char c :: nat);
          d = (if 48 \<le> n \<and> n \<le> 57 then n - 48
               else if 97 \<le> n \<and> n \<le> 102 then n - 87
               else if 65 \<le> n \<and> n \<le> 70 then n - 55
               else r)
      in if d < r then Some d else None)"

fun radixValue :: "nat \<Rightarrow> nat \<Rightarrow> string \<Rightarrow> nat option" where
  "radixValue r acc [] = Some acc"
| "radixValue r acc (c # cs) =
     (case radixDigit r c of None \<Rightarrow> None | Some d \<Rightarrow> radixValue r (r * acc + d) cs)"

definition nonDecimal :: "string \<Rightarrow> nat option" where
  "nonDecimal str =
     (case str of
        z # x # ds \<Rightarrow>
          (let r = (if x \<in> set ''xX'' then 16 else if x \<in> set ''oO'' then 8
                    else if x \<in> set ''bB'' then 2 else 0)
           in if z = CHR ''0'' \<and> r \<noteq> 0 \<and> ds \<noteq> [] then radixValue r 0 ds else None)
      | _ \<Rightarrow> None)"

definition mantissa :: "string \<Rightarrow> rat option" where
  "mantissa str =
     (let whole = takeWhile isDigit str in
      case dropWhile isDigit str of
        [] \<Rightarrow> if whole = [] then None else Some (of_nat (digitsValue whole))
      | c # fraction \<Rightarrow>
          if c = CHR ''.'' \<and> list_all isDigit fraction \<and> (whole \<noteq> [] \<or> fraction \<noteq> [])
          then Some (of_nat (digitsValue (whole @ fraction)) / 10 ^ length fraction)
          else None)"

definition unsignedDigits :: "string \<Rightarrow> int option" where
  "unsignedDigits str = (if numbers str then Some (int (digitsValue str)) else None)"

definition exponent :: "string \<Rightarrow> int option" where
  "exponent str =
     (case str of
        [] \<Rightarrow> None
      | c # ds \<Rightarrow>
          if c = CHR ''+'' then unsignedDigits ds
          else if c = CHR ''-'' then map_option uminus (unsignedDigits ds)
          else unsignedDigits (c # ds))"

definition unsignedDecimal :: "string \<Rightarrow> rat option" where
  "unsignedDecimal str =
     (case mantissa (takeWhile (\<lambda>c. c \<notin> set ''eE'') str) of
        None \<Rightarrow> None
      | Some v \<Rightarrow>
          (case dropWhile (\<lambda>c. c \<notin> set ''eE'') str of
             [] \<Rightarrow> Some v
           | c # ex \<Rightarrow>
               (case exponent ex of
                  None \<Rightarrow> None
                | Some k \<Rightarrow> Some (if 0 \<le> k then v * 10 ^ nat k else v / 10 ^ nat (- k)))))"

definition finite_number :: "rat \<Rightarrow> bool" where
  "finite_number v = (\<bar>v\<bar> < 2 ^ 1024 - 2 ^ 970)"

definition numericString :: "string \<Rightarrow> rat option" where
  "numericString str =
     (let s = trim str in
      case nonDecimal s of
        Some n \<Rightarrow> if finite_number (of_nat n) then Some 0 else None
      | None \<Rightarrow>
          (let (sign, digits) =
                 (case s of
                    [] \<Rightarrow> (1, [])
                  | c # rest \<Rightarrow>
                      if c = CHR ''-'' then (- 1, rest)
                      else if c = CHR ''+'' then (1, rest) else (1, s))
           in case unsignedDecimal digits of
                None \<Rightarrow> None
              | Some v \<Rightarrow> if finite_number v then Some (sign * v) else None))"

definition deployment :: env where
  "deployment =
     \<lparr>u2f_enabled = True, totp_secret = ''a secret cat'', now = 1700000000000,
      entropy = (\<lambda>i. of_nat (17 * i + 3)), hmac_sha256 = createHmac_sha256,
      api = accepting, numeric = numericString\<rparr>"

definition pending :: session where
  "pending = \<lparr>require2fa = True, username = JStr ''alice''\<rparr>"

definition trusted :: session where
  "trusted = \<lparr>require2fa = False, username = JStr ''alice''\<rparr>"

text \<open>A request of the account \<open>alice\<close> from one address, with a given body and session.\<close>

definition alice :: string where
  "alice = ''5a1bda70bfbd1442cd96c6f0''"

definition request_of :: "obj \<Rightarrow> session \<Rightarrow> request" where
  "request_of bdy s = \<lparr>req_user = Some alice, req_ip = ''192.0.2.7'', req_body = bdy, req_session = s\<rparr>"


section \<open>Hexadecimal text and the shape of the token\<close>

lemma hexDigit_in: "hexDigit d \<in> set ''0123456789abcdef''"
proof -
  have "d mod 16 < length ''0123456789abcdef''" by simp
  then show ?thesis unfolding hexDigit_def by (rule nth_mem)
qed

lemma hexDigit_not_colon: "hexDigit d \<noteq> CHR '':''"
  using hexDigit_in [of d] by auto

lemma lowerHex_append: "lowerHex (a @ b) = (lowerHex a \<and> lowerHex b)"
  by (simp add: lowerHex_def)

lemma lowerHex_toString16: "lowerHex (toString16 n)"
proof (induction n rule: toString16.induct)
  case (1 n)
  show ?case
  proof (cases "n < 16")
    case True
    then show ?thesis using hexDigit_in [of n] by (simp add: toString16.simps [of n] lowerHex_def)
  next
    case False
    then show ?thesis using 1 hexDigit_in [of "n mod 16"]
      by (simp add: toString16.simps [of n] lowerHex_append) (simp add: lowerHex_def)
  qed
qed

lemma toString16_nonempty: "toString16 n \<noteq> []"
  by (simp add: toString16.simps [of n])

lemma lowerHex_byteHex: "lowerHex (byteHex b)"
  using hexDigit_in by (simp add: byteHex_def lowerHex_def)

lemma lowerHex_toHex: "lowerHex (toHex bs)"
  by (induction bs) (simp_all add: toHex_def lowerHex_append lowerHex_byteHex, simp add: lowerHex_def)

lemma length_toHex: "length (toHex bs) = 2 * length bs"
  by (induction bs) (simp_all add: toHex_def byteHex_def)

lemma lowerHex_digestHex: "lowerHex (digestHex w)"
  using hexDigit_in by (simp add: digestHex_def lowerHex_def list_all_iff)

lemma length_digestHex: "length (digestHex w) = 64"
  by (simp add: digestHex_def)

lemma lowerHex_no_colon: "lowerHex a \<Longrightarrow> CHR '':'' \<notin> set a"
proof
  assume "lowerHex a" and "CHR '':'' \<in> set a"
  then have "CHR '':'' \<in> set ''0123456789abcdef''"
    unfolding lowerHex_def list_all_iff by blast
  then show False by simp
qed

lemma splitFrom_plain:
  "s \<notin> set a \<Longrightarrow> splitFrom s ss cur a = [cur @ a]"
proof (induction a arbitrary: cur)
  case Nil
  then show ?case by simp
next
  case (Cons c a)
  then have "\<not> prefix (s # ss) (c # a)" by auto
  with Cons show ?case by simp
qed

lemma splitFrom_sep:
  "s \<notin> set a \<Longrightarrow> splitFrom s ss cur (a @ s # ss @ rest) = (cur @ a) # splitFrom s ss [] rest"
proof (induction a arbitrary: cur)
  case Nil
  then show ?case by simp
next
  case (Cons c a)
  then have "\<not> prefix (s # ss) (c # a @ s # ss @ rest)" by auto
  with Cons show ?case by simp
qed

lemma hexValue_hexDigit: "hexValue (hexDigit d) = Some (d mod 16)"
proof -
  have "d mod 16 < 16" by simp
  then have "d mod 16 \<in> {0,1,2,3,4,5,6,7,8,9,10,11,12,13,14,15}"
    by simp arith
  then show ?thesis
    by (auto simp add: hexValue_def hexDigit_def)
qed

lemma parseHexFrom_append:
  "parseHexFrom acc (a @ b) = (case parseHexFrom acc a of None \<Rightarrow> None | Some v \<Rightarrow> parseHexFrom v b)"
  by (induction a arbitrary: acc) (simp_all split: option.splits)

lemma parseHexFrom_toString16: "parseHexFrom 0 (toString16 n) = Some n"
proof (induction n rule: toString16.induct)
  case (1 n)
  show ?case
  proof (cases "n < 16")
    case True
    then show ?thesis by (simp add: toString16.simps [of n] hexValue_hexDigit)
  next
    case False
    then show ?thesis using 1
      by (simp add: toString16.simps [of n] parseHexFrom_append hexValue_hexDigit)
  qed
qed

lemma parseHex_toString16: "parseHex (toString16 n) = Some n"
  by (simp add: parseHex_def toString16_nonempty parseHexFrom_toString16)

lemma fromHex_toHex: "fromHex (toHex bs) = Some bs"
proof (induction bs)
  case Nil
  then show ?case by (simp add: toHex_def)
next
  case (Cons b bs)
  have "unat b < 256" using unsigned_less [of b, where ?'a = nat] by simp
  then have "16 * (unat b div 16 mod 16) + unat b mod 16 mod 16 = unat b" by simp
  with Cons show ?case
    by (simp add: toHex_def byteHex_def hexValue_hexDigit)
qed


lemma token_shape:
  "generate2faRemeberToken e user =
     toString16 (now e) @ ''::'' @ toHex (randomBytes e 6) @ ''::'' @
     digestHex (hmac_sha256 e (totp_secret e @ '':'' @ user)
       (toString16 (now e) @ ''::'' @ toHex (randomBytes e 6)))"
  by (simp add: generate2faRemeberToken_def Let_def)

lemma split_three:
  assumes "lowerHex a" and "lowerHex b" and "lowerHex c"
  shows "splitString ''::'' (a @ ''::'' @ b @ ''::'' @ c) = [a, b, c]"
proof -
  have na: "CHR '':'' \<notin> set a" and nb: "CHR '':'' \<notin> set b" and nc: "CHR '':'' \<notin> set c"
    using assms by (simp_all add: lowerHex_no_colon)
  have "splitString ''::'' (a @ ''::'' @ b @ ''::'' @ c) =
        splitFrom CHR '':'' '':'' [] (a @ CHR '':'' # '':'' @ (b @ CHR '':'' # '':'' @ c))"
    by (simp add: splitString_def)
  also have "\<dots> = ([] @ a) # splitFrom CHR '':'' '':'' [] (b @ CHR '':'' # '':'' @ c)"
    using na by (rule splitFrom_sep)
  also have "splitFrom CHR '':'' '':'' [] (b @ CHR '':'' # '':'' @ c) =
             ([] @ b) # splitFrom CHR '':'' '':'' [] c"
    using nb by (rule splitFrom_sep)
  also have "splitFrom CHR '':'' '':'' [] c = [[] @ c]"
    using nc by (rule splitFrom_plain)
  finally show ?thesis by simp
qed

text \<open>
  Claim C2. For every account id and configured secret, \<open>generate2faRemeberToken\<close> returns
  \<open>timestampHex::nonceHex::signature\<close>: \<open>timestampHex\<close> is the clock's milliseconds in
  hexadecimal, \<open>nonceHex\<close> encodes the six bytes taken from the random source, and
  \<open>signature\<close> is the keyed hash under the key \<open>secret + ":" + accountId\<close> of the message
  \<open>timestampHex + "::" + nonceHex\<close>.
\<close>

theorem token_format:
  "let timestampHex = toString16 (now e);
       nonce = randomBytes e 6;
       nonceHex = toHex nonce;
       signature = digestHex (hmac_sha256 e (totp_secret e @ '':'' @ user)
                     (timestampHex @ ''::'' @ nonceHex))
   in generate2faRemeberToken e user = timestampHex @ ''::'' @ nonceHex @ ''::'' @ signature
      \<and> parseHex timestampHex = Some (now e)
      \<and> nonce = map (entropy e) [0..<6] \<and> 6 \<le> length nonce
      \<and> fromHex nonceHex = Some nonce"
  by (simp add: Let_def token_shape parseHex_toString16 fromHex_toHex randomBytes_def)

text \<open>
  Claim C10. For every account id, secret, timestamp and nonce, the token splits on \<open>"::"\<close>
  into exactly three non-empty parts of lowercase hexadecimal digits, and the third part is
  the keyed hash, under the key \<open>secret + ":" + accountId\<close>, of the first two parts joined
  with \<open>"::"\<close>.
\<close>

theorem token_splits:
  "let parts = splitString ''::'' (generate2faRemeberToken e user)
   in length parts = 3
      \<and> list_all (\<lambda>p. p \<noteq> [] \<and> lowerHex p) parts
      \<and> parts ! 2 = digestHex (hmac_sha256 e (totp_secret e @ '':'' @ user)
                        (join ''::'' (take 2 parts)))"
proof -
  let ?a = "toString16 (now e)" and ?b = "toHex (randomBytes e 6)"
  let ?c = "digestHex (hmac_sha256 e (totp_secret e @ '':'' @ user) (?a @ ''::'' @ ?b))"
  have parts: "splitString ''::'' (generate2faRemeberToken e user) = [?a, ?b, ?c]"
    unfolding token_shape
    by (rule split_three) (rule lowerHex_toString16 lowerHex_toHex lowerHex_digestHex)+
  have "length ?b = 12" by (simp add: length_toHex randomBytes_def)
  then have b: "?b \<noteq> []" by auto
  have "length ?c = 64" by (rule length_digestHex)
  then have c: "?c \<noteq> []" by auto
  show ?thesis
    unfolding parts Let_def
    using b c
    by (simp add: toString16_nonempty lowerHex_toString16 lowerHex_toHex lowerHex_digestHex)
qed


section \<open>Validation\<close>

lemma field_update: "field (AList.update k v al) k' = (if k' = k then v else field al k')"
  by (simp add: field_def update_conv')

lemma field_delete: "field (AList.delete k al) k' = (if k' = k then JUndefined else field al k')"
  by (simp add: field_def delete_conv')

lemma keys_update:
  "map fst (AList.update k v al) = (if k \<in> fst ` set al then map fst al else map fst al @ [k])"
  by (simp add: update_keys)

lemma validate_keys_frame:
  "validate_keys num schema target = (errs, target') \<Longrightarrow> k \<notin> fst ` set schema \<Longrightarrow>
   field target' k = field target k"
proof (induction schema arbitrary: target errs target')
  case Nil
  then show ?case by simp
next
  case (Cons p schema)
  obtain key sc where p: "p = (key, sc)" by (cases p)
  from Cons.prems(2) p have kk: "k \<noteq> key" and kin: "k \<notin> fst ` set schema" by auto
  from Cons.prems(1) p obtain e1 t1 e2 where
    step: "(if field target key = JUndefined then
               (if joi_required sc then ([(key, Any_required)], target)
                else (case joi_default sc of None \<Rightarrow> ([], target)
                      | Some d \<Rightarrow> ([], AList.update key d target)))
             else (case validate_type num (joi_type sc) (field target key) of
                     (es, v) \<Rightarrow> (map (Pair key) es,
                        if es = [] then AList.update key v target else target))) = (e1, t1)"
    and rest: "validate_keys num schema t1 = (e2, target')"
    by (auto simp: Let_def split: prod.splits)
  from step kk have "field t1 k = field target k"
    by (auto simp: field_update split: if_splits option.splits prod.splits)
  with Cons.IH [OF rest kin] show ?case by simp
qed

lemma validate_keys_field:
  assumes "validate_keys num schema target = ([], target')"
    and "distinct (map fst schema)"
    and "(key, sc) \<in> set schema"
  shows "if field target key = JUndefined
         then \<not> joi_required sc \<and>
              field target' key = (case joi_default sc of None \<Rightarrow> JUndefined | Some d \<Rightarrow> d)
         else validate_type num (joi_type sc) (field target key) = ([], field target' key)"
  using assms
proof (induction schema arbitrary: target)
  case Nil
  then show ?case by simp
next
  case (Cons p schema)
  obtain key1 sc1 where p: "p = (key1, sc1)" by (cases p)
  from Cons.prems(1) p obtain t1 where
    step: "(if field target key1 = JUndefined then
               (if joi_required sc1 then ([(key1, Any_required)], target)
                else (case joi_default sc1 of None \<Rightarrow> ([], target)
                      | Some d \<Rightarrow> ([], AList.update key1 d target)))
             else (case validate_type num (joi_type sc1) (field target key1) of
                     (es, v) \<Rightarrow> (map (Pair key1) es,
                        if es = [] then AList.update key1 v target else target))) = ([], t1)"
    and rest: "validate_keys num schema t1 = ([], target')"
    by (auto simp: Let_def split: prod.splits)
  from Cons.prems(2) p have notin: "key1 \<notin> fst ` set schema" and dist: "distinct (map fst schema)"
    by auto
  show ?case
  proof (cases "(key, sc) = (key1, sc1)")
    case True
    have "field target' key1 = field t1 key1"
      using validate_keys_frame [OF rest notin] .
    with step True show ?thesis
      by (auto simp: field_update split: if_splits option.splits prod.splits)
  next
    case False
    with Cons.prems(3) p have mem: "(key, sc) \<in> set schema" by auto
    with notin have ne: "key \<noteq> key1" by force
    from step ne have same: "field t1 key = field target key"
      by (auto simp: field_update split: if_splits option.splits prod.splits)
    from Cons.IH [OF rest dist mem] show ?thesis unfolding same .
  qed
qed

lemma validate_keys_keys:
  "validate_keys num schema target = (errs, target') \<Longrightarrow>
   \<exists>extra. map fst target' = map fst target @ extra \<and>
     set extra \<subseteq> {k. \<exists>sc. (k, sc) \<in> set schema \<and> joi_default sc \<noteq> None}"
proof (induction schema arbitrary: target errs target')
  case Nil
  then show ?case by simp
next
  case (Cons p schema)
  obtain key sc where p: "p = (key, sc)" by (cases p)
  from Cons.prems p obtain e1 t1 e2 where
    step: "(if field target key = JUndefined then
               (if joi_required sc then ([(key, Any_required)], target)
                else (case joi_default sc of None \<Rightarrow> ([], target)
                      | Some d \<Rightarrow> ([], AList.update key d target)))
             else (case validate_type num (joi_type sc) (field target key) of
                     (es, v) \<Rightarrow> (map (Pair key) es,
                        if es = [] then AList.update key v target else target))) = (e1, t1)"
    and rest: "validate_keys num schema t1 = (e2, target')"
    by (auto simp: Let_def split: prod.splits)
  have present: "field target key \<noteq> JUndefined \<Longrightarrow> key \<in> fst ` set target"
    by (auto simp: field_def split: option.splits dest: map_of_SomeD intro: rev_image_eqI)
  have "map fst t1 = map fst target \<or> (map fst t1 = map fst target @ [key] \<and> joi_default sc \<noteq> None)"
  proof (cases "field target key = JUndefined")
    case True
    with step show ?thesis
      by (auto simp: keys_update split: if_splits option.splits)
  next
    case False
    then have "key \<in> fst ` set target" by (rule present)
    then have upd: "map fst (AList.update key v target) = map fst target" for v
      by (simp only: keys_update if_True)
    from step False show ?thesis
      by (auto simp: upd split: if_splits prod.splits)
  qed
  then consider (same) "map fst t1 = map fst target"
    | (more) "map fst t1 = map fst target @ [key]" "joi_default sc \<noteq> None"
    by blast
  note first = this
  from Cons.IH [OF rest] obtain extra where
    ex1: "map fst target' = map fst t1 @ extra" and
    ex2: "set extra \<subseteq> {k. \<exists>sc. (k, sc) \<in> set schema \<and> joi_default sc \<noteq> None}"
    by blast
  from ex2 have ex3: "set extra \<subseteq> {k. \<exists>sc. (k, sc) \<in> set (p # schema) \<and> joi_default sc \<noteq> None}"
    by fastforce
  from first show ?case
  proof cases
    case same
    with ex1 ex3 show ?thesis by auto
  next
    case more
    have "set (key # extra) \<subseteq> {k. \<exists>sc. (k, sc) \<in> set (p # schema) \<and> joi_default sc \<noteq> None}"
      using ex3 more(2) p by fastforce
    moreover have "map fst target' = map fst target @ (key # extra)"
      using ex1 more(1) by simp
    ultimately show ?thesis by blast
  qed
qed

section \<open>The routes\<close>

lemma calls_simps [simp]:
  "calls \<lparr>events = [], response = r, session_after = s\<rparr> = []"
  "calls \<lparr>events = Api c # evs, response = r, session_after = s\<rparr> =
     c # calls \<lparr>events = evs, response = r, session_after = s\<rparr>"
  "calls \<lparr>events = Mint u # evs, response = r, session_after = s\<rparr> =
     calls \<lparr>events = evs, response = r, session_after = s\<rparr>"
  "calls \<lparr>events = Flash a b # evs, response = r, session_after = s\<rparr> =
     calls \<lparr>events = evs, response = r, session_after = s\<rparr>"
  by (simp_all add: calls_def)

lemma minted_simps [simp]:
  "minted \<lparr>events = [], response = r, session_after = s\<rparr> = False"
  "minted \<lparr>events = Api c # evs, response = r, session_after = s\<rparr> =
     minted \<lparr>events = evs, response = r, session_after = s\<rparr>"
  "minted \<lparr>events = Mint u # evs, response = r, session_after = s\<rparr> = True"
  "minted \<lparr>events = Flash a b # evs, response = r, session_after = s\<rparr> =
     minted \<lparr>events = evs, response = r, session_after = s\<rparr>"
  by (simp_all add: minted_def)

lemma Joi_validate_Inr:
  "Joi_validate num val schema = Inr target \<Longrightarrow> validate_keys num schema val = ([], target)"
  by (auto simp: Joi_validate_def Let_def split: prod.splits if_splits)

lemma Joi_validate_Inl:
  "Joi_validate num val schema = Inl errs \<Longrightarrow> errs \<noteq> []"
  by (auto simp: Joi_validate_def Let_def split: prod.splits if_splits)

lemma validate_string:
  "validate_type num (JoiString (Some n) (Some p)) v = ([], v') \<Longrightarrow>
   \<exists>s. v = JStr s \<and> v' = JStr s \<and> length s = n \<and> p s"
  by (cases v) (auto split: if_splits)

lemma token_validated:
  assumes "validate_keys num schema bdy = ([], val)"
    and "distinct (map fst schema)"
    and "(''token'', required (regex_rule numbers (length_rule 6 Joi_string))) \<in> set schema"
  shows "\<exists>s. field bdy ''token'' = JStr s \<and> field val ''token'' = JStr s \<and> sixDigits s"
proof -
  let ?sc = "required (regex_rule numbers (length_rule 6 Joi_string))"
  have ty: "joi_type ?sc = JoiString (Some 6) (Some numbers)" and rq: "joi_required ?sc"
    by (simp_all add: required_def regex_rule_def length_rule_def Joi_string_def)
  from validate_keys_field [OF assms] rq
  have "validate_type num (JoiString (Some 6) (Some numbers)) (field bdy ''token'')
          = ([], field val ''token'')"
    unfolding ty by (auto split: if_splits)
  from validate_string [OF this] show ?thesis
    by (auto simp: sixDigits_def numbers_def)
qed

text \<open>
  Claim C8. In \<open>/check-totp\<close> and \<open>/verify-totp\<close> the code is checked to be exactly six ASCII
  digits before the provider is called: every call that reaches the provider carries the
  body's \<open>token\<close>, a string of six digits; for a body whose \<open>token\<close> is anything else the
  answer is a validation error and the provider is not called.
\<close>

theorem totp_code_checked:
  "(\<forall>call \<in> set (calls (check_totp e req)). \<exists>uid s.
       call = CheckTotp uid (JStr s) (req_ip req) \<and> sixDigits s
       \<and> field (req_body req) ''token'' = JStr s)
   \<and> (\<forall>call \<in> set (calls (verify_totp e req)). \<exists>uid s.
       call = VerifyTotp uid (JStr s) (req_ip req) \<and> sixDigits s
       \<and> field (req_body req) ''token'' = JStr s)
   \<and> ((\<forall>s. field (req_body req) ''token'' = JStr s \<longrightarrow> \<not> sixDigits s) \<longrightarrow>
        (\<exists>errs. errs \<noteq> [] \<and> check_totp e req =
           \<lparr>events = [], response = JsonValidation errs, session_after = req_session req\<rparr>)
        \<and> (\<exists>errs. errs \<noteq> [] \<and> verify_totp e req =
           \<lparr>events = [], response = JsonValidation errs, session_after = req_session req\<rparr>))"
proof -
  let ?bdy = "AList.delete ''_csrf'' (req_body req)"
  have tok: "field ?bdy ''token'' = field (req_body req) ''token''"
    by (simp add: field_delete)
  have c: "\<exists>s. field (req_body req) ''token'' = JStr s \<and> field val ''token'' = JStr s \<and> sixDigits s"
    if "Joi_validate (numeric e) ?bdy check_totp_schema = Inr val" for val
    using token_validated [OF Joi_validate_Inr [OF that]] tok
    by (simp add: check_totp_schema_def)
  have v: "\<exists>s. field (req_body req) ''token'' = JStr s \<and> field val ''token'' = JStr s \<and> sixDigits s"
    if "Joi_validate (numeric e) ?bdy verify_totp_schema = Inr val" for val
    using token_validated [OF Joi_validate_Inr [OF that]] tok
    by (simp add: verify_totp_schema_def)
  have 1: "\<forall>call \<in> set (calls (check_totp e req)). \<exists>uid s.
       call = CheckTotp uid (JStr s) (req_ip req) \<and> sixDigits s
       \<and> field (req_body req) ''token'' = JStr s"
    using c
    by (auto simp: check_totp_def Let_def split: sum.splits option.splits api_reply.splits)
  have 2: "\<forall>call \<in> set (calls (verify_totp e req)). \<exists>uid s.
       call = VerifyTotp uid (JStr s) (req_ip req) \<and> sixDigits s
       \<and> field (req_body req) ''token'' = JStr s"
    using v
    by (auto simp: verify_totp_def Let_def split: sum.splits option.splits api_reply.splits)
  have 3: "\<exists>errs. errs \<noteq> [] \<and> check_totp e req =
           \<lparr>events = [], response = JsonValidation errs, session_after = req_session req\<rparr>"
    if "\<forall>s. field (req_body req) ''token'' = JStr s \<longrightarrow> \<not> sixDigits s"
  proof (cases "Joi_validate (numeric e) ?bdy check_totp_schema")
    case (Inl errs)
    with Joi_validate_Inl [OF Inl] show ?thesis by (simp add: check_totp_def)
  next
    case (Inr val)
    with c that show ?thesis by blast
  qed
  have 4: "\<exists>errs. errs \<noteq> [] \<and> verify_totp e req =
           \<lparr>events = [], response = JsonValidation errs, session_after = req_session req\<rparr>"
    if "\<forall>s. field (req_body req) ''token'' = JStr s \<longrightarrow> \<not> sixDigits s"
  proof (cases "Joi_validate (numeric e) ?bdy verify_totp_schema")
    case (Inl errs)
    with Joi_validate_Inl [OF Inl] show ?thesis by (simp add: verify_totp_def)
  next
    case (Inr val)
    with v that show ?thesis by blast
  qed
  from 1 2 3 4 show ?thesis by blast
qed

text \<open>
  Claim C4. In \<open>/check-totp\<close>, when the provider's check fails or reports a non-success
  result, the answer is a failure and the session is left as it was; when the provider reports
  success the session's \<open>require2fa\<close> is set to false, and nothing else clears it.
\<close>

theorem check_totp_gate:
  "let out = check_totp e req in
     (\<forall>call \<in> set (calls out). \<not> totp_verified (api e call) \<longrightarrow>
        isFailure (response out) \<and> session_after out = req_session req)
     \<and> (\<forall>call \<in> set (calls out). totp_verified (api e call) \<longrightarrow>
        \<not> isFailure (response out) \<and> session_after out = (req_session req)\<lparr>require2fa := False\<rparr>)
     \<and> (calls out = [] \<longrightarrow> isFailure (response out) \<and> session_after out = req_session req)
     \<and> (session_after out \<noteq> req_session req \<longrightarrow>
        (\<exists>call \<in> set (calls out). totp_verified (api e call)))"
  by (auto simp: check_totp_def Let_def jsonError_def field_def
      split: sum.splits option.splits api_reply.splits)

lemma toLowerCase_true: "toLowerCase ''true'' = ''true''"
  by (simp add: toLowerCase_def lowerChar_def)

lemma validate_boolean:
  assumes "validate_type num (JoiBoolean truthy_values falsy_values) v = ([], w)" and "truthy w"
  shows "v = JBool True \<or> hasValue truthy_values v"
proof (cases v)
  case (JBool b)
  with assms show ?thesis by auto
next
  case (JStr s)
  show ?thesis
  proof (cases "toLowerCase s = ''true''")
    case True
    then have "hasValue truthy_values (JStr s)"
      by (simp add: hasValue_def truthy_values_def toLowerCase_true)
    with JStr show ?thesis by simp
  next
    case False
    with assms JStr show ?thesis by (auto split: if_splits)
  qed
qed (use assms in \<open>auto split: if_splits\<close>)

lemma remember_validated:
  assumes "validate_keys num schema bdy = ([], val)"
    and "distinct (map fst schema)"
    and "(''remember2fa'', default_rule (JBool False)
            (falsy_rule falsy_values (truthy_rule truthy_values Joi_boolean))) \<in> set schema"
    and "truthy (field val ''remember2fa'')"
  shows "opted_in bdy"
proof -
  let ?sc = "default_rule (JBool False) (falsy_rule falsy_values (truthy_rule truthy_values Joi_boolean))"
  have ty: "joi_type ?sc = JoiBoolean truthy_values falsy_values"
    and df: "joi_default ?sc = Some (JBool False)"
    by (simp_all add: default_rule_def falsy_rule_def truthy_rule_def Joi_boolean_def)
  from validate_keys_field [OF assms(1-3)] assms(4) df
  have "validate_type num (JoiBoolean truthy_values falsy_values) (field bdy ''remember2fa'')
          = ([], field val ''remember2fa'')"
    unfolding ty by (auto split: if_splits)
  from validate_boolean [OF this assms(4)] show ?thesis
    by (simp add: opted_in_def)
qed

lemma opted_in_delete: "opted_in (AList.delete ''_csrf'' bdy) = opted_in bdy"
  by (simp add: opted_in_def field_delete)

lemma verified_object:
  "u2f_verified (ApiResult data) \<Longrightarrow> \<exists>ob. data = JObj ob \<and> truthy (field ob ''success'')"
  by (cases data) auto


text \<open>The paths of \<open>/check-u2f\<close> once the body has passed validation.\<close>

lemma check_u2f_refused:
  assumes "u2f_enabled e"
    and "Joi_validate (numeric e) (AList.delete ''_csrf'' (req_body req)) check_u2f_schema = Inr val"
    and "req_user req = Some uid"
    and "\<not> u2f_verified (api e (CheckU2f uid (u2f_request req val)))"
  shows "\<exists>msg. check_u2f e req =
           \<lparr>events = [Api (CheckU2f uid (u2f_request req val))],
            response = Json (jsonError msg), session_after = req_session req\<rparr>"
  using assms
  by (auto simp: check_u2f_def Let_def u2f_request_def split: api_reply.splits)

lemma check_u2f_accepted:
  assumes "u2f_enabled e"
    and "Joi_validate (numeric e) (AList.delete ''_csrf'' (req_body req)) check_u2f_schema = Inr val"
    and "req_user req = Some uid"
    and "api e (CheckU2f uid (u2f_request req val)) = ApiResult (JObj ob)"
    and "truthy (field ob ''success'')"
  shows "check_u2f e req =
           (if truthy (field val ''remember2fa'') then
              \<lparr>events = [Api (CheckU2f uid (u2f_request req val)), Mint uid],
               response = Json (JObj (AList.update ''targetUrl'' (JStr ''/account/'')
                 (AList.update ''remember2fa''
                    (JObj [(''username'', username (req_session req)),
                           (''value'', JStr (generate2faRemeberToken e uid))]) ob))),
               session_after = (req_session req)\<lparr>require2fa := False\<rparr>\<rparr>
            else
              \<lparr>events = [Api (CheckU2f uid (u2f_request req val))],
               response = Json (JObj (AList.update ''targetUrl'' (JStr ''/account/'') ob)),
               session_after = (req_session req)\<lparr>require2fa := False\<rparr>\<rparr>)"
  using assms
  by (simp add: check_u2f_def Let_def u2f_request_def)

lemma check_u2f_cases:
  obtains (off) "\<not> u2f_enabled e"
      "check_u2f e req = \<lparr>events = [], response = Json (jsonError (message disabled)),
         session_after = req_session req\<rparr>"
    | (invalid) errs where "errs \<noteq> []"
      "check_u2f e req = \<lparr>events = [], response = JsonValidation errs,
         session_after = req_session req\<rparr>"
    | (anonymous)
      "check_u2f e req = \<lparr>events = [], response = Threw, session_after = req_session req\<rparr>"
    | (refused) uid val msg where "u2f_enabled e"
      "Joi_validate (numeric e) (AList.delete ''_csrf'' (req_body req)) check_u2f_schema = Inr val"
      "req_user req = Some uid"
      "\<not> u2f_verified (api e (CheckU2f uid (u2f_request req val)))"
      "check_u2f e req =
         \<lparr>events = [Api (CheckU2f uid (u2f_request req val))],
          response = Json (jsonError msg), session_after = req_session req\<rparr>"
    | (accepted) uid val ob where "u2f_enabled e"
      "Joi_validate (numeric e) (AList.delete ''_csrf'' (req_body req)) check_u2f_schema = Inr val"
      "req_user req = Some uid"
      "api e (CheckU2f uid (u2f_request req val)) = ApiResult (JObj ob)"
      "truthy (field ob ''success'')"
proof (cases "u2f_enabled e")
  case False
  then show ?thesis by (intro off) (simp_all add: check_u2f_def)
next
  case on: True
  show ?thesis
  proof (cases "Joi_validate (numeric e) (AList.delete ''_csrf'' (req_body req)) check_u2f_schema")
    case (Inl errs)
    with on Joi_validate_Inl [OF Inl] show ?thesis
      by (intro invalid [of errs]) (simp_all add: check_u2f_def)
  next
    case (Inr val)
    show ?thesis
    proof (cases "req_user req")
      case None
      with on Inr show ?thesis by (intro anonymous) (simp add: check_u2f_def Let_def)
    next
      case (Some uid)
      show ?thesis
      proof (cases "u2f_verified (api e (CheckU2f uid (u2f_request req val)))")
        case False
        from check_u2f_refused [OF on Inr Some False] obtain msg where
          "check_u2f e req =
             \<lparr>events = [Api (CheckU2f uid (u2f_request req val))],
              response = Json (jsonError msg), session_after = req_session req\<rparr>" ..
        with on Inr Some False show ?thesis by (rule refused)
      next
        case True
        then obtain data where r: "api e (CheckU2f uid (u2f_request req val)) = ApiResult data"
          by (cases "api e (CheckU2f uid (u2f_request req val))") auto
        with True verified_object obtain ob where "data = JObj ob" "truthy (field ob ''success'')"
          by metis
        with on Inr Some r show ?thesis by (intro accepted) simp_all
      qed
    qed
  qed
qed

lemma copyKeys_Nil [simp]: "copyKeys [] A b rd = rd"
  by (simp add: copyKeys_def)

lemma copyKeys_Cons [simp]:
  "copyKeys (k # ks) A b rd =
     copyKeys ks A b (if k \<in> set A then AList.update k (field b k) rd else rd)"
  by (simp add: copyKeys_def)

lemma copyKeys_append: "copyKeys (ks @ ks') A b rd = copyKeys ks' A b (copyKeys ks A b rd)"
  by (simp add: copyKeys_def)

lemma copyKeys_skip: "set ks \<inter> set A = {} \<Longrightarrow> copyKeys ks A b rd = rd"
  by (induction ks arbitrary: rd) auto

lemma copyKeys_filter: "copyKeys (filter (\<lambda>k. k \<in> set A) ks) A b rd = copyKeys ks A b rd"
  by (induction ks arbitrary: rd) auto

lemma copyKeys_cong:
  "(\<And>k. k \<in> set A \<Longrightarrow> field b k = field b' k) \<Longrightarrow> copyKeys ks A b rd = copyKeys ks A b' rd"
  by (induction ks arbitrary: rd) auto

lemma map_of_copyKeys:
  "map_of (copyKeys ks A b rd) k =
     (if k \<in> set ks \<and> k \<in> set A then Some (field b k) else map_of rd k)"
  by (induction ks arbitrary: rd) (auto simp: update_conv')

lemma field_filter:
  "P k \<Longrightarrow> field (filter (\<lambda>(k, v). P k) b) k = field b k"
  by (induction b) (auto simp: field_def)

lemma keys_filter: "map fst (filter (\<lambda>(k, v). P k) b) = filter P (map fst b)"
  by (induction b) auto

text \<open>The copied keys depend on the entries of the allowed keys only.\<close>

lemma copyKeys_restrict:
  assumes "\<And>k. k \<in> set A \<Longrightarrow> P k"
  shows "copyKeys (map fst (filter (\<lambda>(k, v). P k) b)) A (filter (\<lambda>(k, v). P k) b) rd =
         copyKeys (map fst b) A b rd"
proof -
  have "copyKeys (map fst (filter (\<lambda>(k, v). P k) b)) A (filter (\<lambda>(k, v). P k) b) rd =
        copyKeys (filter (\<lambda>k. k \<in> set A) (filter P (map fst b))) A (filter (\<lambda>(k, v). P k) b) rd"
    by (simp only: keys_filter copyKeys_filter)
  also have "filter (\<lambda>k. k \<in> set A) (filter P (map fst b)) = filter (\<lambda>k. k \<in> set A) (map fst b)"
    using assms by (auto intro: filter_cong)
  also have "copyKeys (filter (\<lambda>k. k \<in> set A) (map fst b)) A (filter (\<lambda>(k, v). P k) b) rd =
             copyKeys (filter (\<lambda>k. k \<in> set A) (map fst b)) A b rd"
    using assms by (intro copyKeys_cong) (simp add: field_filter)
  finally show ?thesis by (simp only: copyKeys_filter)
qed

lemma delete_filter: "AList.delete k b = filter (\<lambda>(k', v). k' \<noteq> k) b"
  by (induction b) auto

lemma u2f_request_body:
  assumes "Joi_validate num (AList.delete ''_csrf'' (req_body req)) check_u2f_schema = Inr val"
  shows "u2f_request req val =
         copyKeys (map fst (req_body req)) [''signatureData'', ''clientData'', ''errorCode'']
           (req_body req) [(''ip'', JStr (req_ip req))]"
proof -
  let ?A = "[''signatureData'', ''clientData'', ''errorCode'']"
  let ?bdy = "AList.delete ''_csrf'' (req_body req)"
  from validate_keys_keys [OF Joi_validate_Inr [OF assms]] obtain extra where
    keys: "map fst val = map fst ?bdy @ extra" and
    extra: "set extra \<subseteq> {k. \<exists>sc. (k, sc) \<in> set check_u2f_schema \<and> joi_default sc \<noteq> None}"
    by blast
  have "{k. \<exists>sc. (k, sc) \<in> set check_u2f_schema \<and> joi_default sc \<noteq> None} \<subseteq> {''remember2fa''}"
    by (auto simp: check_u2f_schema_def Joi_string_def Joi_number_def)
  with extra have "set extra \<inter> set ?A = {}" by auto
  then have "u2f_request req val = copyKeys (map fst ?bdy) ?A ?bdy [(''ip'', JStr (req_ip req))]"
    by (simp add: u2f_request_def keys copyKeys_append copyKeys_skip)
  also have "\<dots> = copyKeys (map fst (req_body req)) ?A (req_body req) [(''ip'', JStr (req_ip req))]"
    unfolding delete_filter by (rule copyKeys_restrict) auto
  finally show ?thesis .
qed

lemma u2f_request_omit:
  "copyKeys (map fst b) [''signatureData'', ''clientData'', ''errorCode''] b rd =
   copyKeys (map fst (omit [''keyHandle'', ''errorMessage'', ''remember2fa''] b))
     [''signatureData'', ''clientData'', ''errorCode'']
     (omit [''keyHandle'', ''errorMessage'', ''remember2fa''] b) rd"
  unfolding omit_def by (rule copyKeys_restrict [symmetric]) auto

lemma check_u2f_schema_distinct: "distinct (map fst check_u2f_schema)"
  by (simp add: check_u2f_schema_def)

lemma check_totp_schema_distinct: "distinct (map fst check_totp_schema)"
  by (simp add: check_totp_schema_def)

lemma check_totp_opted:
  assumes "Joi_validate (numeric e) (AList.delete ''_csrf'' (req_body req)) check_totp_schema = Inr val"
    and "truthy (field val ''remember2fa'')"
  shows "opted_in (req_body req)"
proof -
  have "opted_in (AList.delete ''_csrf'' (req_body req))"
    by (rule remember_validated [OF Joi_validate_Inr [OF assms(1)] check_totp_schema_distinct _ assms(2)])
       (simp add: check_totp_schema_def)
  then show ?thesis by (simp add: opted_in_delete)
qed

lemma check_u2f_opted:
  assumes "Joi_validate (numeric e) (AList.delete ''_csrf'' (req_body req)) check_u2f_schema = Inr val"
    and "truthy (field val ''remember2fa'')"
  shows "opted_in (req_body req)"
proof -
  have "opted_in (AList.delete ''_csrf'' (req_body req))"
    by (rule remember_validated [OF Joi_validate_Inr [OF assms(1)] check_u2f_schema_distinct _ assms(2)])
       (simp add: check_u2f_schema_def)
  then show ?thesis by (simp add: opted_in_delete)
qed

lemma check_totp_accepted:
  assumes "Joi_validate (numeric e) (AList.delete ''_csrf'' (req_body req)) check_totp_schema = Inr val"
    and "req_user req = Some uid"
    and "api e (CheckTotp uid (field val ''token'') (req_ip req)) = ApiResult result"
    and "truthy result"
  shows "check_totp e req =
           (if truthy (field val ''remember2fa'') then
              \<lparr>events = [Api (CheckTotp uid (field val ''token'') (req_ip req)), Mint uid],
               response = Json (JObj [(''success'', JBool True), (''targetUrl'', JStr ''/account/''),
                 (''remember2fa'',
                    JObj [(''username'', username (req_session req)),
                          (''value'', JStr (generate2faRemeberToken e uid))])]),
               session_after = (req_session req)\<lparr>require2fa := False\<rparr>\<rparr>
            else
              \<lparr>events = [Api (CheckTotp uid (field val ''token'') (req_ip req))],
               response = Json (JObj [(''success'', JBool True), (''targetUrl'', JStr ''/account/'')]),
               session_after = (req_session req)\<lparr>require2fa := False\<rparr>\<rparr>)"
  using assms by (simp add: check_totp_def Let_def)

lemma mint_totp:
  assumes "minted (check_totp e req)"
  shows "(\<exists>call \<in> set (calls (check_totp e req)). totp_verified (api e call))
     \<and> opted_in (req_body req)
     \<and> (\<exists>uid ob. req_user req = Some uid \<and> response (check_totp e req) = Json (JObj ob)
          \<and> truthy (field ob ''success'')
          \<and> field ob ''remember2fa'' =
              JObj [(''username'', username (req_session req)),
                    (''value'', JStr (generate2faRemeberToken e uid))])"
proof (cases "Joi_validate (numeric e) (AList.delete ''_csrf'' (req_body req)) check_totp_schema")
  case (Inl errs)
  with assms show ?thesis by (simp add: check_totp_def)
next
  case (Inr val)
  show ?thesis
  proof (cases "req_user req")
    case None
    with assms Inr show ?thesis by (simp add: check_totp_def Let_def)
  next
    case (Some uid)
    show ?thesis
    proof (cases "api e (CheckTotp uid (field val ''token'') (req_ip req))")
      case (ApiError err)
      with assms Inr Some show ?thesis by (simp add: check_totp_def Let_def)
    next
      case (ApiResult result)
      show ?thesis
      proof (cases "truthy result")
        case False
        with assms Inr Some ApiResult show ?thesis by (simp add: check_totp_def Let_def)
      next
        case True
        note eq = check_totp_accepted [OF Inr Some ApiResult True]
        from assms eq have yes: "truthy (field val ''remember2fa'')"
          by (auto split: if_splits)
        from check_totp_opted [OF Inr yes] yes Some ApiResult True show ?thesis
          by (simp add: eq field_def)
      qed
    qed
  qed
qed

lemma mint_u2f:
  assumes "minted (check_u2f e req)"
  shows "(\<exists>call \<in> set (calls (check_u2f e req)). u2f_verified (api e call))
     \<and> opted_in (req_body req)
     \<and> (\<exists>uid ob. req_user req = Some uid \<and> response (check_u2f e req) = Json (JObj ob)
          \<and> truthy (field ob ''success'')
          \<and> field ob ''remember2fa'' =
              JObj [(''username'', username (req_session req)),
                    (''value'', JStr (generate2faRemeberToken e uid))])"
proof (cases e req rule: check_u2f_cases)
  case (accepted uid val ob)
  note eq = check_u2f_accepted [OF accepted]
  from assms eq have yes: "truthy (field val ''remember2fa'')"
    by (auto split: if_splits)
  from check_u2f_opted [OF accepted(2) yes] yes accepted show ?thesis
    by (simp add: eq field_update)
qed (use assms in auto)

lemma failure_has_no_success:
  "isFailure (Json (JObj ob)) \<Longrightarrow> \<not> truthy (field ob ''success'')"
  by simp

text \<open>
  Claim C5. In \<open>/check-totp\<close> and \<open>/check-u2f\<close> a remember-token is minted, and returned
  to the caller, only if the provider verified the factor and the caller opted in through
  \<open>remember2fa\<close>; no request that ends in a failure calls the mint operation.
\<close>

theorem mint_only_after_success:
  "(minted (check_totp e req) \<longrightarrow>
      (\<exists>call \<in> set (calls (check_totp e req)). totp_verified (api e call))
      \<and> opted_in (req_body req)
      \<and> (\<exists>uid ob. req_user req = Some uid \<and> response (check_totp e req) = Json (JObj ob)
           \<and> truthy (field ob ''success'')
           \<and> field ob ''remember2fa'' =
               JObj [(''username'', username (req_session req)),
                     (''value'', JStr (generate2faRemeberToken e uid))]))
   \<and> (minted (check_u2f e req) \<longrightarrow>
      (\<exists>call \<in> set (calls (check_u2f e req)). u2f_verified (api e call))
      \<and> opted_in (req_body req)
      \<and> (\<exists>uid ob. req_user req = Some uid \<and> response (check_u2f e req) = Json (JObj ob)
           \<and> truthy (field ob ''success'')
           \<and> field ob ''remember2fa'' =
               JObj [(''username'', username (req_session req)),
                     (''value'', JStr (generate2faRemeberToken e uid))]))
   \<and> (isFailure (response (check_totp e req)) \<longrightarrow> \<not> minted (check_totp e req))
   \<and> (isFailure (response (check_u2f e req)) \<longrightarrow> \<not> minted (check_u2f e req))"
proof -
  have "\<not> minted (check_totp e req)" if "isFailure (response (check_totp e req))"
  proof
    assume "minted (check_totp e req)"
    from mint_totp [OF this] obtain ob where
      "response (check_totp e req) = Json (JObj ob)" "truthy (field ob ''success'')" by blast
    with that show False by simp
  qed
  moreover have "\<not> minted (check_u2f e req)" if "isFailure (response (check_u2f e req))"
  proof
    assume "minted (check_u2f e req)"
    from mint_u2f [OF this] obtain ob where
      "response (check_u2f e req) = Json (JObj ob)" "truthy (field ob ''success'')" by blast
    with that show False by simp
  qed
  ultimately show ?thesis using mint_totp [of e req] mint_u2f [of e req] by blast
qed

text \<open>
  Claim C9. The request that \<open>/check-u2f\<close> forwards to the provider consists of the client
  IP and of the body's \<open>signatureData\<close>, \<open>clientData\<close> and \<open>errorCode\<close>, and of nothing
  else; two accepted bodies that differ only in \<open>keyHandle\<close>, \<open>errorMessage\<close> and
  \<open>remember2fa\<close> give the same provider request.
\<close>

theorem u2f_request_fields:
  "(\<forall>call \<in> set (calls (check_u2f e req)). \<exists>uid requestData.
       call = CheckU2f uid requestData \<and> req_user req = Some uid
       \<and> (\<forall>k. map_of requestData k =
             (if k = ''ip'' then Some (JStr (req_ip req))
              else if k \<in> {''signatureData'', ''clientData'', ''errorCode''}
                      \<and> k \<in> fst ` set (req_body req)
                   then Some (field (req_body req) k)
              else None)))
   \<and> (req_user req = req_user req' \<and> req_ip req = req_ip req'
       \<and> omit [''keyHandle'', ''errorMessage'', ''remember2fa''] (req_body req) =
          omit [''keyHandle'', ''errorMessage'', ''remember2fa''] (req_body req')
       \<and> calls (check_u2f e req) \<noteq> [] \<and> calls (check_u2f e req') \<noteq> []
       \<longrightarrow> calls (check_u2f e req) = calls (check_u2f e req'))"
proof -
  let ?A = "[''signatureData'', ''clientData'', ''errorCode'']"
  let ?rd = "\<lambda>r. copyKeys (map fst (req_body r)) ?A (req_body r) [(''ip'', JStr (req_ip r))]"
  have shape: "calls (check_u2f e r) = [] \<or>
      (\<exists>uid. req_user r = Some uid \<and> calls (check_u2f e r) = [CheckU2f uid (?rd r)])" for r
  proof (cases e r rule: check_u2f_cases)
    case (refused uid val msg)
    then show ?thesis by (simp add: u2f_request_body)
  next
    case (accepted uid val ob)
    from check_u2f_accepted [OF accepted] accepted(2,3) show ?thesis
      by (simp add: u2f_request_body)
  qed auto
  have fields: "map_of (?rd req) k =
             (if k = ''ip'' then Some (JStr (req_ip req))
              else if k \<in> {''signatureData'', ''clientData'', ''errorCode''}
                      \<and> k \<in> fst ` set (req_body req)
                   then Some (field (req_body req) k)
              else None)" for k
    by (auto simp: map_of_copyKeys)
  have 1: "\<forall>call \<in> set (calls (check_u2f e req)). \<exists>uid requestData.
       call = CheckU2f uid requestData \<and> req_user req = Some uid
       \<and> (\<forall>k. map_of requestData k =
             (if k = ''ip'' then Some (JStr (req_ip req))
              else if k \<in> {''signatureData'', ''clientData'', ''errorCode''}
                      \<and> k \<in> fst ` set (req_body req)
                   then Some (field (req_body req) k)
              else None))"
    using shape [of req] fields by auto
  have same: "?rd req = ?rd req'"
    if "req_ip req = req_ip req'"
      "omit [''keyHandle'', ''errorMessage'', ''remember2fa''] (req_body req) =
       omit [''keyHandle'', ''errorMessage'', ''remember2fa''] (req_body req')"
    using that
    by (simp only: u2f_request_omit [of "req_body req"] u2f_request_omit [of "req_body req'"])
  have 2: "calls (check_u2f e req) = calls (check_u2f e req')"
    if "req_user req = req_user req'" "req_ip req = req_ip req'"
      "omit [''keyHandle'', ''errorMessage'', ''remember2fa''] (req_body req) =
       omit [''keyHandle'', ''errorMessage'', ''remember2fa''] (req_body req')"
      "calls (check_u2f e req) \<noteq> []" "calls (check_u2f e req') \<noteq> []"
    using shape [of req] shape [of req'] same [OF that(2,3)] that(1,4,5) by auto
  from 1 2 show ?thesis by blast
qed

text \<open>
  Claim C6. With security-key support switched off in the configuration, each of the six
  security-key routes answers at once that the method is disabled, and makes no call to the
  account service.
\<close>

theorem security_key_disabled:
  assumes "\<not> u2f_enabled e"
  shows
    "start_u2f e req =
       \<lparr>events = [], response = Json (JObj [(''error'', JStr ''U2F support is disabled'')]),
        session_after = req_session req\<rparr>
     \<and> check_u2f e req =
       \<lparr>events = [], response = Json (JObj [(''error'', JStr ''U2F support is disabled'')]),
        session_after = req_session req\<rparr>
     \<and> setup_u2f e req =
       \<lparr>events = [], response = Json (JObj [(''error'', JStr ''U2F support is disabled'')]),
        session_after = req_session req\<rparr>
     \<and> enable_u2f_verify e req =
       \<lparr>events = [], response = Json (JObj [(''error'', JStr ''U2F support is disabled'')]),
        session_after = req_session req\<rparr>
     \<and> enable_u2f e req =
       \<lparr>events = [], response = Next (JsError ''U2F support is disabled'' JUndefined (JNum 404)),
        session_after = req_session req\<rparr>
     \<and> disable_u2f e req =
       \<lparr>events = [], response = Next (JsError ''U2F support is disabled'' JUndefined (JNum 404)),
        session_after = req_session req\<rparr>"
  using assms
  by (simp add: start_u2f_def check_u2f_def setup_u2f_def enable_u2f_verify_def enable_u2f_def
      disable_u2f_def disabled_def disabled404_def jsonError_def)

section \<open>The session flag\<close>

lemma enable_u2f_verify_session: "session_after (enable_u2f_verify e req) = req_session req"
  by (simp add: enable_u2f_verify_def Let_def split: option.splits api_reply.splits)

lemma disable_u2f_session: "session_after (disable_u2f e req) = req_session req"
  by (simp add: disable_u2f_def Let_def split: option.splits api_reply.splits)

text \<open>
  Claim C7, as amended. A finish of the security-key registration that the account service
  accepts activates the enrollment and answers with the service's data and the target
  \<open>/account/security\<close>; the handler leaves the session, and so its \<open>require2fa\<close>, as it was.
\<close>

theorem enable_u2f_verify_keeps_session:
  "session_after (enable_u2f_verify e req) = req_session req
   \<and> (u2f_enabled e \<and>
        api e (EnableU2f uid (copyKeys (map fst bdy) [''registrationData'', ''clientData'', ''errorCode'']
                 bdy [(''ip'', JStr addr)])) = ApiResult (JObj ob)
       \<longrightarrow> serve enable_u2f_verify e sid (Some uid) addr bdy w =
             (Json (JObj (AList.update ''targetUrl'' (JStr ''/account/security'') ob)),
              \<lparr>active = insert SecurityKey (active w), sessions = sessions w\<rparr>))"
  by (simp add: enable_u2f_verify_session)
     (simp add: serve_def enable_u2f_verify_def Let_def)


lemmas joi_eval =
  Joi_validate_def Let_def field_def required_def regex_rule_def length_rule_def
  default_rule_def truthy_rule_def falsy_rule_def Joi_string_def Joi_number_def Joi_boolean_def
  numbers_def isDigit_def hasValue_def truthy_values_def falsy_values_def toLowerCase_def
  lowerChar_def

lemmas sample_eval =
  deployment_def accepting_def refusing_def pending_def trusted_def alice_def request_of_def

theorem enable_u2f_verify_keeps_session_witness:
  "u2f_enabled deployment
   \<and> api deployment (EnableU2f alice
         (copyKeys (map fst [(''registrationData'', JStr ''BQQ''), (''clientData'', JStr ''eyJ'')])
            [''registrationData'', ''clientData'', ''errorCode'']
            [(''registrationData'', JStr ''BQQ''), (''clientData'', JStr ''eyJ'')]
            [(''ip'', JStr ''192.0.2.7'')]))
       = ApiResult (JObj [(''success'', JBool True)])
   \<and> serve enable_u2f_verify deployment 0 (Some alice) ''192.0.2.7''
         [(''registrationData'', JStr ''BQQ''), (''clientData'', JStr ''eyJ'')]
         \<lparr>active = {TOTP}, sessions = (\<lambda>sid. pending)\<rparr>
       = (Json (JObj [(''success'', JBool True), (''targetUrl'', JStr ''/account/security'')]),
          \<lparr>active = {SecurityKey, TOTP}, sessions = (\<lambda>sid. pending)\<rparr>)"
  using enable_u2f_verify_keeps_session [of deployment
      "request_of [(''registrationData'', JStr ''BQQ''), (''clientData'', JStr ''eyJ'')] pending"
      alice "[(''registrationData'', JStr ''BQQ''), (''clientData'', JStr ''eyJ'')]"
      "''192.0.2.7''" "[(''success'', JBool True)]" 0
      "\<lparr>active = {TOTP}, sessions = (\<lambda>sid. pending)\<rparr>"]
  by (simp add: sample_eval)

text \<open>
  The claim as stated fails: a session that still requires the second factor finishes the
  registration of a key, the account service accepts it, and the session requires the second
  factor as before.
\<close>

theorem enable_u2f_verify_counterexample:
  "\<not> isFailure (fst (serve enable_u2f_verify deployment 0 (Some alice) ''192.0.2.7''
         [(''registrationData'', JStr ''BQQ''), (''clientData'', JStr ''eyJ'')]
         \<lparr>active = {TOTP}, sessions = (\<lambda>sid. pending)\<rparr>))
   \<and> SecurityKey \<in> active (snd (serve enable_u2f_verify deployment 0 (Some alice) ''192.0.2.7''
         [(''registrationData'', JStr ''BQQ''), (''clientData'', JStr ''eyJ'')]
         \<lparr>active = {TOTP}, sessions = (\<lambda>sid. pending)\<rparr>))
   \<and> require2fa (sessions (snd (serve enable_u2f_verify deployment 0 (Some alice) ''192.0.2.7''
         [(''registrationData'', JStr ''BQQ''), (''clientData'', JStr ''eyJ'')]
         \<lparr>active = {TOTP}, sessions = (\<lambda>sid. pending)\<rparr>)) 0)"
  by (simp add: serve_def enable_u2f_verify_def sample_eval field_def)

text \<open>
  Claim C3, as amended. After a \<open>/disable-2fa\<close> request that the account service answers
  without error, the account has no active factor and the \<open>require2fa\<close> of the requesting
  session is false; the sessions of the account's other clients are left as they were.
\<close>

theorem disable_2fa_clears_own_session:
  "api e (Disable2fa uid addr) = ApiResult data \<Longrightarrow>
   serve disable_2fa e sid (Some uid) addr bdy w =
     (Redirect ''/account/security'',
      \<lparr>active = {}, sessions = (sessions w)(sid := (sessions w sid)\<lparr>require2fa := False\<rparr>)\<rparr>)"
  by (simp add: serve_def disable_2fa_def Let_def)

theorem disable_2fa_clears_own_session_witness:
  "api deployment (Disable2fa alice ''192.0.2.7'') = ApiResult (JObj [(''success'', JBool True)])
   \<and> active (snd (serve disable_2fa deployment 0 (Some alice) ''192.0.2.7'' []
         \<lparr>active = {TOTP, SecurityKey}, sessions = (\<lambda>sid. pending)\<rparr>)) = {}
   \<and> \<not> require2fa (sessions (snd (serve disable_2fa deployment 0 (Some alice) ''192.0.2.7'' []
         \<lparr>active = {TOTP, SecurityKey}, sessions = (\<lambda>sid. pending)\<rparr>)) 0)
   \<and> sessions (snd (serve disable_2fa deployment 0 (Some alice) ''192.0.2.7'' []
         \<lparr>active = {TOTP, SecurityKey}, sessions = (\<lambda>sid. pending)\<rparr>)) 1 = pending"
proof -
  have ok: "api deployment (Disable2fa alice ''192.0.2.7'') = ApiResult (JObj [(''success'', JBool True)])"
    by (simp add: sample_eval)
  show ?thesis
    using ok disable_2fa_clears_own_session [OF ok, of 0 "[]"
        "\<lparr>active = {TOTP, SecurityKey}, sessions = (\<lambda>sid. pending)\<rparr>"]
    by simp
qed

text \<open>
  The claim as stated fails: the account has two clients, one trusted and one that still owes
  its second factor; the trusted one disables two-factor authentication, the account is left
  without an active factor, and the other session still requires one.
\<close>

theorem disable_2fa_counterexample:
  "active (snd (serve disable_2fa deployment 0 (Some alice) ''192.0.2.7'' []
       \<lparr>active = {TOTP}, sessions = (\<lambda>sid. if sid = 0 then trusted else pending)\<rparr>)) = {}
   \<and> require2fa (sessions (snd (serve disable_2fa deployment 0 (Some alice) ''192.0.2.7'' []
       \<lparr>active = {TOTP}, sessions = (\<lambda>sid. if sid = 0 then trusted else pending)\<rparr>)) 1)"
  by (simp add: serve_def disable_2fa_def sample_eval)


section \<open>The theorems at concrete requests\<close>

theorem check_totp_gate_witness:
  "calls (check_totp (deployment\<lparr>api := refusing\<rparr>)
      (request_of [(''_csrf'', JStr ''x''), (''token'', JStr ''000000'')] pending))
     = [CheckTotp alice (JStr ''000000'') ''192.0.2.7'']
   \<and> \<not> totp_verified (refusing (CheckTotp alice (JStr ''000000'') ''192.0.2.7''))
   \<and> isFailure (response (check_totp (deployment\<lparr>api := refusing\<rparr>)
      (request_of [(''_csrf'', JStr ''x''), (''token'', JStr ''000000'')] pending)))
   \<and> session_after (check_totp (deployment\<lparr>api := refusing\<rparr>)
      (request_of [(''_csrf'', JStr ''x''), (''token'', JStr ''000000'')] pending)) = pending
   \<and> calls (check_totp deployment
      (request_of [(''_csrf'', JStr ''x''), (''token'', JStr ''123456'')] pending))
     = [CheckTotp alice (JStr ''123456'') ''192.0.2.7'']
   \<and> totp_verified (accepting (CheckTotp alice (JStr ''123456'') ''192.0.2.7''))
   \<and> session_after (check_totp deployment
      (request_of [(''_csrf'', JStr ''x''), (''token'', JStr ''123456'')] pending)) = trusted"
  using
    check_totp_gate [of "deployment\<lparr>api := refusing\<rparr>"
      "request_of [(''_csrf'', JStr ''x''), (''token'', JStr ''000000'')] pending"]
    check_totp_gate [of deployment
      "request_of [(''_csrf'', JStr ''x''), (''token'', JStr ''123456'')] pending"]
  by (simp add: check_totp_def joi_eval check_totp_schema_def sample_eval)

theorem mint_only_after_success_witness:
  "minted (check_totp deployment
      (request_of [(''token'', JStr ''123456''), (''remember2fa'', JStr ''on'')] pending))
   \<and> totp_verified (api deployment (CheckTotp alice (JStr ''123456'') ''192.0.2.7''))
   \<and> opted_in [(''token'', JStr ''123456''), (''remember2fa'', JStr ''on'')]
   \<and> response (check_totp deployment
      (request_of [(''token'', JStr ''123456''), (''remember2fa'', JStr ''on'')] pending))
     = Json (JObj [(''success'', JBool True), (''targetUrl'', JStr ''/account/''),
         (''remember2fa'', JObj [(''username'', JStr ''alice''),
            (''value'', JStr (generate2faRemeberToken deployment alice))])])
   \<and> isFailure (response (check_u2f (deployment\<lparr>api := refusing\<rparr>)
      (request_of [(''signatureData'', JStr ''c2ln''), (''clientData'', JStr ''Y2xp''),
                   (''remember2fa'', JStr ''on'')] pending)))
   \<and> \<not> minted (check_u2f (deployment\<lparr>api := refusing\<rparr>)
      (request_of [(''signatureData'', JStr ''c2ln''), (''clientData'', JStr ''Y2xp''),
                   (''remember2fa'', JStr ''on'')] pending))"
  using
    mint_only_after_success [of deployment
      "request_of [(''token'', JStr ''123456''), (''remember2fa'', JStr ''on'')] pending"]
    mint_only_after_success [of "deployment\<lparr>api := refusing\<rparr>"
      "request_of [(''signatureData'', JStr ''c2ln''), (''clientData'', JStr ''Y2xp''),
                   (''remember2fa'', JStr ''on'')] pending"]
  by (simp add: check_totp_def check_u2f_def joi_eval check_totp_schema_def check_u2f_schema_def
      sample_eval opted_in_def jsonError_def copyKeys_def)

theorem security_key_disabled_witness:
  "\<not> u2f_enabled (deployment\<lparr>u2f_enabled := False\<rparr>)
   \<and> events (check_u2f (deployment\<lparr>u2f_enabled := False\<rparr>)
        (request_of [(''signatureData'', JStr ''c2ln''), (''clientData'', JStr ''Y2xp'')] pending)) = []
   \<and> response (check_u2f (deployment\<lparr>u2f_enabled := False\<rparr>)
        (request_of [(''signatureData'', JStr ''c2ln''), (''clientData'', JStr ''Y2xp'')] pending))
       = Json (JObj [(''error'', JStr ''U2F support is disabled'')])
   \<and> response (disable_u2f (deployment\<lparr>u2f_enabled := False\<rparr>) (request_of [] trusted))
       = Next (JsError ''U2F support is disabled'' JUndefined (JNum 404))"
proof -
  have off: "\<not> u2f_enabled (deployment\<lparr>u2f_enabled := False\<rparr>)" by simp
  show ?thesis
    using off
      security_key_disabled [OF off,
        of "request_of [(''signatureData'', JStr ''c2ln''), (''clientData'', JStr ''Y2xp'')] pending"]
      security_key_disabled [OF off, of "request_of [] trusted"]
    by simp
qed

theorem totp_code_checked_witness:
  "calls (check_totp deployment (request_of [(''token'', JStr ''123456'')] pending))
     = [CheckTotp alice (JStr ''123456'') ''192.0.2.7'']
   \<and> sixDigits ''123456''
   \<and> field [(''token'', JStr ''12345a'')] ''token'' = JStr ''12345a''
   \<and> \<not> sixDigits ''12345a''
   \<and> check_totp deployment (request_of [(''token'', JStr ''12345a'')] pending)
     = \<lparr>events = [], response = JsonValidation [(''token'', String_regex)], session_after = pending\<rparr>
   \<and> verify_totp deployment (request_of [(''token'', JStr ''1234567'')] pending)
     = \<lparr>events = [], response = JsonValidation [(''token'', String_length 6)],
        session_after = pending\<rparr>"
  using
    totp_code_checked [of deployment "request_of [(''token'', JStr ''123456'')] pending"]
    totp_code_checked [of deployment "request_of [(''token'', JStr ''12345a'')] pending"]
  by (simp add: check_totp_def verify_totp_def joi_eval check_totp_schema_def
      verify_totp_schema_def sample_eval sixDigits_def)

theorem u2f_request_fields_witness:
  "calls (check_u2f deployment
      (request_of [(''keyHandle'', JStr ''a2V5''), (''signatureData'', JStr ''c2ln''),
                   (''clientData'', JStr ''Y2xp''), (''remember2fa'', JStr ''on'')] pending))
     = [CheckU2f alice [(''ip'', JStr ''192.0.2.7''), (''signatureData'', JStr ''c2ln''),
                        (''clientData'', JStr ''Y2xp'')]]
   \<and> omit [''keyHandle'', ''errorMessage'', ''remember2fa'']
         [(''keyHandle'', JStr ''a2V5''), (''signatureData'', JStr ''c2ln''),
          (''clientData'', JStr ''Y2xp''), (''remember2fa'', JStr ''on'')]
     = omit [''keyHandle'', ''errorMessage'', ''remember2fa'']
         [(''signatureData'', JStr ''c2ln''), (''errorMessage'', JStr ''none''),
          (''clientData'', JStr ''Y2xp'')]
   \<and> calls (check_u2f deployment
      (request_of [(''signatureData'', JStr ''c2ln''), (''errorMessage'', JStr ''none''),
                   (''clientData'', JStr ''Y2xp'')] pending))
     = [CheckU2f alice [(''ip'', JStr ''192.0.2.7''), (''signatureData'', JStr ''c2ln''),
                        (''clientData'', JStr ''Y2xp'')]]"
  using
    u2f_request_fields [of deployment
      "request_of [(''keyHandle'', JStr ''a2V5''), (''signatureData'', JStr ''c2ln''),
                   (''clientData'', JStr ''Y2xp''), (''remember2fa'', JStr ''on'')] pending"
      "request_of [(''signatureData'', JStr ''c2ln''), (''errorMessage'', JStr ''none''),
                   (''clientData'', JStr ''Y2xp'')] pending"]
  by (simp add: check_u2f_def joi_eval check_u2f_schema_def sample_eval omit_def copyKeys_def)

section \<open>Verifying a minted token\<close>












section \<open>Altered tokens and other identities\<close>






section \<open>Zero bytes at the end of an HMAC key\<close>




section \<open>The sample token\<close>












end
